theory Spec2Isabelle
  imports Main "HOL-Library.Word" "HOL-Library.AList"
begin

section \<open>Python strings\<close>

text \<open>
  A Python \<^verbatim>\<open>str\<close> is a sequence of Unicode code points, so a character is a
  natural number (its code point) and a string is a list of them. Non-ASCII titles
  such as the Chinese headwords of the dictionary are single elements of the list.
  \<open>ascii\<close> turns an ASCII literal of the theory into such a string.
\<close>

type_synonym pychar = nat
type_synonym pystr = "pychar list"

definition ascii :: "string \<Rightarrow> pystr" where
  "ascii s = map of_char s"

text \<open>
  \<^verbatim>\<open>str.isspace\<close> for one character, as CPython decides it: the code points
  of bidirectional type WS, B or S, or of category Zs.
\<close>

definition py_isspace :: "pychar \<Rightarrow> bool" where
  "py_isspace c \<longleftrightarrow>
     (0x09 \<le> c \<and> c \<le> 0x0D) \<or> (0x1C \<le> c \<and> c \<le> 0x20) \<or> c = 0x85 \<or> c = 0xA0 \<or>
     c = 0x1680 \<or> (0x2000 \<le> c \<and> c \<le> 0x200A) \<or> c = 0x2028 \<or> c = 0x2029 \<or>
     c = 0x202F \<or> c = 0x205F \<or> c = 0x3000"

text \<open>\<^verbatim>\<open>str.strip()\<close> with no argument: whitespace is dropped from the left end, then
  from the right end.\<close>

definition py_lstrip :: "pystr \<Rightarrow> pystr" where
  "py_lstrip s = dropWhile py_isspace s"

definition py_rstrip :: "pystr \<Rightarrow> pystr" where
  "py_rstrip s = rev (dropWhile py_isspace (rev s))"

definition py_strip :: "pystr \<Rightarrow> pystr" where
  "py_strip s = py_rstrip (py_lstrip s)"

text \<open>
  \<^verbatim>\<open>re.sub(pattern, repl, s)\<close> for a pattern that is one character class and a
  replacement without group references: the string is scanned from the left, every
  character of the class is a match and is replaced, every other character is copied.
\<close>

fun re_sub_class :: "pychar list \<Rightarrow> pystr \<Rightarrow> pystr \<Rightarrow> pystr" where
  "re_sub_class cls repl [] = []"
| "re_sub_class cls repl (c # cs) =
     (if c \<in> set cls then repl @ re_sub_class cls repl cs
      else c # re_sub_class cls repl cs)"

section \<open>The filename sanitiser\<close>

text \<open>
  \<^verbatim>\<open>invalid_chars = r"[\\/:*?\"<>|]"\<close>: in the raw string the class holds the
  escaped backslash, the slash, colon, star, question mark, the escaped double quote,
  the angle brackets and the bar.
\<close>

definition invalid_chars :: "pychar list" where
  "invalid_chars = [0x5C, 0x2F, 0x3A, 0x2A, 0x3F, 0x22, 0x3C, 0x3E, 0x7C]"

definition sanitise_filename :: "pystr \<Rightarrow> pystr" where
  "sanitise_filename name =
     (let name = re_sub_class invalid_chars (ascii ''_'') name;
          name = py_strip name
      in name)"

text \<open>
  The reserved set as the specification lists it,
  \<open>{ \<^verbatim>\<open>\\<close>, /, :, *, ?, ", <, >, | }\<close>, and the replacement of one character.
\<close>

definition reserved_chars :: "pychar set" where
  "reserved_chars =
     {of_char (CHR 0x5C), of_char CHR ''/'', of_char CHR '':'', of_char CHR ''*'',
      of_char CHR ''?'', of_char (CHR 0x22), of_char CHR ''<'', of_char CHR ''>'',
      of_char CHR ''|''}"

definition replace_reserved :: "pychar \<Rightarrow> pychar" where
  "replace_reserved c = (if c \<in> reserved_chars then of_char CHR ''_'' else c)"


section \<open>Python values\<close>

text \<open>
  The values \<^verbatim>\<open>json.load\<close> builds: \<^verbatim>\<open>None\<close>, booleans, integers of any size,
  floats, strings, lists, and dictionaries with string keys. A float is its IEEE 754
  binary64 bit pattern. A dictionary is the list of its items in insertion order, which
  is the order Python keeps and \<^verbatim>\<open>json.dump\<close> writes.
\<close>

datatype pyobj =
    PNone
  | PBool bool
  | PInt int
  | PFloat "64 word"
  | PStr pystr
  | PList "pyobj list"
  | PDict "(pystr \<times> pyobj) list"

text \<open>
  The exceptions a run can end with. \<^verbatim>\<open>JSONDecodeError\<close>, \<^verbatim>\<open>UnicodeDecodeError\<close>
  and \<^verbatim>\<open>UnicodeEncodeError\<close> are subclasses of \<^verbatim>\<open>ValueError\<close> in Python and
  \<^verbatim>\<open>FileNotFoundError\<close> is one of \<^verbatim>\<open>OSError\<close>; here \<open>ValueError\<close> and \<open>OSError\<close>
  stand for the instances that belong to no subclass listed.
\<close>

datatype error =
    AttributeError
  | TypeError
  | ValueError
  | JSONDecodeError
  | UnicodeDecodeError
  | UnicodeEncodeError
  | RecursionError
  | FileNotFoundError
  | OSError

definition float_is_zero :: "64 word \<Rightarrow> bool" where
  "float_is_zero w \<longleftrightarrow> w = 0 \<or> w = 0x8000000000000000"

text \<open>Truth value testing, as \<^verbatim>\<open>not title\<close> performs it.\<close>

fun truthy :: "pyobj \<Rightarrow> bool" where
  "truthy PNone = False"
| "truthy (PBool b) = b"
| "truthy (PInt i) = (i \<noteq> 0)"
| "truthy (PFloat w) = (\<not> float_is_zero w)"
| "truthy (PStr s) = (s \<noteq> [])"
| "truthy (PList xs) = (xs \<noteq> [])"
| "truthy (PDict kvs) = (kvs \<noteq> [])"

text \<open>
  \<^verbatim>\<open>entry.get('title')\<close>: only a dictionary has the method; a missing key gives
  \<^verbatim>\<open>None\<close>.
\<close>

fun py_get :: "pyobj \<Rightarrow> pystr \<Rightarrow> error + pyobj" where
  "py_get (PDict kvs) k = Inr (case map_of kvs k of None \<Rightarrow> PNone | Some v \<Rightarrow> v)"
| "py_get _ k = Inl AttributeError"

section \<open>The platform\<close>

text \<open>
  What a run depends on besides the two files and the program: the interpreter and the
  operating system. \<open>float_repr\<close> is \<^verbatim>\<open>float.__repr__\<close> and \<open>float_of_str\<close> is
  \<^verbatim>\<open>float\<close> on the text of a number, whose algorithms are not part of the program.
  \<open>int_max_str_digits\<close> is \<^verbatim>\<open>sys.get_int_max_str_digits()\<close>, 4300 unless changed and
  0 for no limit. \<open>decode_depth\<close> and \<open>encode_depth\<close> are what the recursion limit of
  the interpreter leaves to the decoder and to the encoder when \<^verbatim>\<open>split_dictionary\<close>
  calls them. The last three fields are the answers of the operating system for a path,
  given as bytes: \<open>None\<close> when \<^verbatim>\<open>os.makedirs(path, exist_ok=True)\<close>, opening for
  reading, or opening for writing is granted, the exception otherwise (a name that is
  too long, a missing permission, a directory in the place of a file). They depend on
  the path only, not on the files the run has written.
\<close>

type_synonym bytes = "nat list"

record platform =
  float_repr :: "64 word \<Rightarrow> pystr"
  float_of_str :: "pystr \<Rightarrow> 64 word"
  int_max_str_digits :: nat
  decode_depth :: nat
  encode_depth :: nat
  os_makedirs :: "bytes \<Rightarrow> error option"
  os_open_r :: "bytes \<Rightarrow> error option"
  os_open_w :: "bytes \<Rightarrow> error option"

section \<open>Text and bytes\<close>

text \<open>
  The UTF-8 encoding of one code point, as the codec \<^verbatim>\<open>utf-8\<close> with the error
  handler \<^verbatim>\<open>strict\<close> produces it: a surrogate (U+D800 to U+DFFF) cannot be encoded.
  A Python string holds no code point above U+10FFFF.
\<close>

definition utf8_encode_char :: "pychar \<Rightarrow> bytes option" where
  "utf8_encode_char c =
     (if c < 0x80 then Some [c]
      else if c < 0x800 then Some [0xC0 + c div 64, 0x80 + c mod 64]
      else if 0xD800 \<le> c \<and> c \<le> 0xDFFF then None
      else if c < 0x10000 then
        Some [0xE0 + c div 4096, 0x80 + c div 64 mod 64, 0x80 + c mod 64]
      else
        Some [0xF0 + c div 262144, 0x80 + c div 4096 mod 64, 0x80 + c div 64 mod 64,
              0x80 + c mod 64])"

text \<open>\<^verbatim>\<open>s.encode('utf-8')\<close>; \<open>None\<close> stands for \<^verbatim>\<open>UnicodeEncodeError\<close>.\<close>

definition utf8_encode :: "pystr \<Rightarrow> bytes option" where
  "utf8_encode s = map_option concat (those (map utf8_encode_char s))"

text \<open>
  \<^verbatim>\<open>b.decode('utf-8')\<close>, strict: a lead byte must be followed by the right number of
  continuation bytes, and overlong forms, surrogates and code points above U+10FFFF
  are refused. \<open>None\<close> stands for \<^verbatim>\<open>UnicodeDecodeError\<close>.
\<close>

definition is_cont :: "nat \<Rightarrow> bool" where
  "is_cont b \<longleftrightarrow> 0x80 \<le> b \<and> b \<le> 0xBF"

fun utf8_decode :: "bytes \<Rightarrow> pystr option" where
  "utf8_decode [] = Some []"
| "utf8_decode (b # bs) =
     (if b < 0x80 then map_option (Cons b) (utf8_decode bs)
      else if 0xC2 \<le> b \<and> b \<le> 0xDF then
        (case bs of
           b1 # r \<Rightarrow>
             if is_cont b1
             then map_option (Cons ((b - 0xC0) * 64 + (b1 - 0x80))) (utf8_decode r)
             else None
         | _ \<Rightarrow> None)
      else if 0xE0 \<le> b \<and> b \<le> 0xEF then
        (case bs of
           b1 # b2 # r \<Rightarrow>
             if is_cont b1 \<and> is_cont b2 \<and> (b = 0xE0 \<longrightarrow> 0xA0 \<le> b1) \<and> (b = 0xED \<longrightarrow> b1 \<le> 0x9F)
             then map_option (Cons ((b - 0xE0) * 4096 + (b1 - 0x80) * 64 + (b2 - 0x80)))
                    (utf8_decode r)
             else None
         | _ \<Rightarrow> None)
      else if 0xF0 \<le> b \<and> b \<le> 0xF4 then
        (case bs of
           b1 # b2 # b3 # r \<Rightarrow>
             if is_cont b1 \<and> is_cont b2 \<and> is_cont b3
                \<and> (b = 0xF0 \<longrightarrow> 0x90 \<le> b1) \<and> (b = 0xF4 \<longrightarrow> b1 \<le> 0x8F)
             then map_option
                    (Cons ((b - 0xF0) * 262144 + (b1 - 0x80) * 4096 + (b2 - 0x80) * 64
                           + (b3 - 0x80)))
                    (utf8_decode r)
             else None
         | _ \<Rightarrow> None)
      else None)"

text \<open>
  \<^verbatim>\<open>os.fsencode\<close> of a path, as \<^verbatim>\<open>open\<close> and \<^verbatim>\<open>os.makedirs\<close> apply it on a
  POSIX system with a UTF-8 locale: UTF-8 with the error handler
  \<^verbatim>\<open>surrogateescape\<close>, under which the surrogates U+DC80 to U+DCFF stand for the bytes
  0x80 to 0xFF and any other surrogate raises \<^verbatim>\<open>UnicodeEncodeError\<close>. The bytes are
  then refused with \<^verbatim>\<open>ValueError\<close> when they hold a null byte.
\<close>

definition fsencode_char :: "pychar \<Rightarrow> bytes option" where
  "fsencode_char c = (if 0xDC80 \<le> c \<and> c \<le> 0xDCFF then Some [c - 0xDC00] else utf8_encode_char c)"

definition fsencode :: "pystr \<Rightarrow> error + bytes" where
  "fsencode path =
     (case those (map fsencode_char path) of
        None \<Rightarrow> Inl UnicodeEncodeError
      | Some bs \<Rightarrow> if 0 \<in> set (concat bs) then Inl ValueError else Inr (concat bs))"

text \<open>
  Reading in text mode with \<^verbatim>\<open>newline=None\<close>: the line endings \<^verbatim>\<open>\r\n\<close> and
  \<^verbatim>\<open>\r\<close> come out as \<^verbatim>\<open>\n\<close>. Writing translates nothing on a POSIX system.
\<close>

fun universal_newlines :: "pystr \<Rightarrow> pystr" where
  "universal_newlines (c # d # cs) =
     (if c = 0x0D \<and> d = 0x0A then 0x0A # universal_newlines cs
      else if c = 0x0D then 0x0A # universal_newlines (d # cs)
      else c # universal_newlines (d # cs))"
| "universal_newlines [c] = (if c = 0x0D then [0x0A] else [c])"
| "universal_newlines [] = []"

section \<open>Integers as text\<close>

text \<open>\<^verbatim>\<open>str(n)\<close> of an integer: decimal digits, a minus sign when negative.\<close>

function nat_digits :: "nat \<Rightarrow> pystr" where
  "nat_digits n = (if n < 10 then [48 + n] else nat_digits (n div 10) @ [48 + n mod 10])"
  by pat_completeness auto
termination
  by (relation "measure id") auto

declare nat_digits.simps [simp del]

definition py_str_int :: "int \<Rightarrow> pystr" where
  "py_str_int i = (if i < 0 then 0x2D # nat_digits (nat (- i)) else nat_digits (nat i))"

text \<open>
  The limit on the conversion between integers and decimal text: a text of more digits
  than \<open>int_max_str_digits\<close>, the sign not counted, raises \<^verbatim>\<open>ValueError\<close> in either
  direction, unless the limit is 0.
\<close>

definition over_int_limit :: "platform \<Rightarrow> nat \<Rightarrow> bool" where
  "over_int_limit pl n \<longleftrightarrow> 0 < int_max_str_digits pl \<and> int_max_str_digits pl < n"

definition int_repr :: "platform \<Rightarrow> int \<Rightarrow> error + pystr" where
  "int_repr pl i =
     (if over_int_limit pl (length (nat_digits (nat \<bar>i\<bar>))) then Inl ValueError
      else Inr (py_str_int i))"

text \<open>The value of a string of decimal digits.\<close>

definition digits_value :: "pystr \<Rightarrow> nat" where
  "digits_value ds = foldl (\<lambda>acc d. 10 * acc + (d - 48)) 0 ds"

section \<open>The JSON encoder\<close>

text \<open>
  \<^verbatim>\<open>json.dump(entry, out_f, ensure_ascii=False, indent=2)\<close>. With
  \<^verbatim>\<open>ensure_ascii=False\<close> a string is quoted by \<^verbatim>\<open>encode_basestring\<close>, which
  escapes the backslash, the double quote and the control characters below U+0020 and
  copies every other character.
\<close>

definition hex_digit :: "nat \<Rightarrow> pychar" where
  "hex_digit d = (if d < 10 then 48 + d else 87 + d)"

definition escape_char :: "pychar \<Rightarrow> pystr" where
  "escape_char c =
     (if c = 0x5C then [0x5C, 0x5C]
      else if c = 0x22 then [0x5C, 0x22]
      else if c = 0x08 then [0x5C, of_char CHR ''b'']
      else if c = 0x0C then [0x5C, of_char CHR ''f'']
      else if c = 0x0A then [0x5C, of_char CHR ''n'']
      else if c = 0x0D then [0x5C, of_char CHR ''r'']
      else if c = 0x09 then [0x5C, of_char CHR ''t'']
      else if c < 0x20 then [0x5C, of_char CHR ''u'', 48, 48, hex_digit (c div 16), hex_digit (c mod 16)]
      else [c])"

definition py_encode_basestring :: "pystr \<Rightarrow> pystr" where
  "py_encode_basestring s = 0x22 # concat (map escape_char s) @ [0x22]"

text \<open>
  A float is written by \<^verbatim>\<open>float.__repr__\<close>, except for the three values the encoder
  names itself.
\<close>

definition float_isnan :: "64 word \<Rightarrow> bool" where
  "float_isnan w \<longleftrightarrow>
     and w 0x7FF0000000000000 = 0x7FF0000000000000 \<and> and w 0x000FFFFFFFFFFFFF \<noteq> 0"

definition PosInf :: "64 word" where "PosInf = 0x7FF0000000000000"
definition NegInf :: "64 word" where "NegInf = 0xFFF0000000000000"
definition NaN :: "64 word" where "NaN = 0x7FF8000000000000"

definition floatstr :: "(64 word \<Rightarrow> pystr) \<Rightarrow> 64 word \<Rightarrow> pystr" where
  "floatstr fr w =
     (if float_isnan w then ascii ''NaN''
      else if w = PosInf then ascii ''Infinity''
      else if w = NegInf then ascii ''-Infinity''
      else fr w)"

text \<open>\<^verbatim>\<open>'\n' + _indent * _current_indent_level\<close> with \<^verbatim>\<open>_indent = ' ' * 2\<close>.\<close>

definition newline_indent :: "nat \<Rightarrow> pystr" where
  "newline_indent lvl = 0x0A # replicate (2 * lvl) 0x20"

text \<open>
  \<^verbatim>\<open>json.dump\<close> writes the chunks that the generator \<^verbatim>\<open>_iterencode\<close> yields, one
  call of \<^verbatim>\<open>fp.write\<close> for each. The generator can raise instead of yielding: a
  \<open>chunk\<close> is a text or the exception.

  \<open>scalar_text\<close> is the text of a value that is not a container, as the branches
  \<^verbatim>\<open>isinstance(value, str)\<close>, \<^verbatim>\<open>value is None\<close>, \<^verbatim>\<open>value is True\<close>,
  \<^verbatim>\<open>value is False\<close>, \<^verbatim>\<open>isinstance(value, int)\<close> and \<^verbatim>\<open>isinstance(value, float)\<close>
  compute it. \<^verbatim>\<open>int.__repr__\<close> raises \<^verbatim>\<open>ValueError\<close> beyond the limit on digits.
  \<open>d\<close> is the number of nested calls the recursion limit still allows:
  \<^verbatim>\<open>_floatstr\<close> needs one, for \<^verbatim>\<open>float.__repr__\<close> or for the comparison that
  finds a NaN, except at an infinity.
\<close>

datatype chunk = Chunk pystr | Raise error

fun scalar_text :: "platform \<Rightarrow> nat \<Rightarrow> pyobj \<Rightarrow> (error + pystr) option" where
  "scalar_text pl d (PStr s) = Some (Inr (py_encode_basestring s))"
| "scalar_text pl d PNone = Some (Inr (ascii ''null''))"
| "scalar_text pl d (PBool b) = Some (Inr (if b then ascii ''true'' else ascii ''false''))"
| "scalar_text pl d (PInt i) = Some (int_repr pl i)"
| "scalar_text pl d (PFloat w) =
     Some (if d = 0 \<and> w \<noteq> PosInf \<and> w \<noteq> NegInf then Inl RecursionError
           else Inr (floatstr (float_repr pl) w))"
| "scalar_text pl d (PList xs) = None"
| "scalar_text pl d (PDict kvs) = None"

text \<open>
  \<^verbatim>\<open>_iterencode\<close>, \<^verbatim>\<open>_iterencode_list\<close> and \<^verbatim>\<open>_iterencode_dict\<close> at indent level
  \<open>lvl\<close>, with the loops of the latter two as functions of their own. An empty
  container is one chunk. A container that is not empty needs one nested call before
  its first chunk (\<open>d = 0\<close> raises \<^verbatim>\<open>RecursionError\<close>) and its items are encoded one
  level deeper. In a list the text of a scalar comes in one chunk with \<^verbatim>\<open>buf\<close>, which
  is the opening bracket or the separator; before a nested container \<^verbatim>\<open>buf\<close> is a
  chunk of its own. In a dictionary the separator, the key, the key separator
  \<^verbatim>\<open>': '\<close> and the value are chunks of their own. The item separator is \<^verbatim>\<open>','\<close>
  followed by the newline and indentation.
\<close>

fun iterencode :: "platform \<Rightarrow> nat \<Rightarrow> nat \<Rightarrow> pyobj \<Rightarrow> chunk list"
  and iterencode_list_loop :: "platform \<Rightarrow> nat \<Rightarrow> nat \<Rightarrow> pystr \<Rightarrow> pyobj list \<Rightarrow> chunk list"
  and iterencode_dict_loop ::
    "platform \<Rightarrow> nat \<Rightarrow> nat \<Rightarrow> bool \<Rightarrow> (pystr \<times> pyobj) list \<Rightarrow> chunk list"
where
  "iterencode pl d lvl (PList lst) =
     (if lst = [] then [Chunk (ascii ''[]'')]
      else if d = 0 then [Raise RecursionError]
      else iterencode_list_loop pl (d - 1) (Suc lvl) (ascii ''['' @ newline_indent (Suc lvl)) lst
           @ [Chunk (newline_indent lvl), Chunk (ascii '']'')])"
| "iterencode pl d lvl (PDict dct) =
     (if dct = [] then [Chunk (ascii ''{}'')]
      else if d = 0 then [Raise RecursionError]
      else Chunk (ascii ''{'') # Chunk (newline_indent (Suc lvl))
           # iterencode_dict_loop pl (d - 1) (Suc lvl) True dct
           @ [Chunk (newline_indent lvl), Chunk (ascii ''}'')])"
| "iterencode pl d lvl v =
     (case scalar_text pl d v of
        Some (Inr text) \<Rightarrow> [Chunk text]
      | Some (Inl e) \<Rightarrow> [Raise e]
      | None \<Rightarrow> [])"
| "iterencode_list_loop pl d lvl buf [] = []"
| "iterencode_list_loop pl d lvl buf (v # lst) =
     (case scalar_text pl d v of
        Some (Inr text) \<Rightarrow> [Chunk (buf @ text)]
      | Some (Inl e) \<Rightarrow> [Raise e]
      | None \<Rightarrow> Chunk buf # iterencode pl d lvl v)
     @ iterencode_list_loop pl d lvl (ascii '','' @ newline_indent lvl) lst"
| "iterencode_dict_loop pl d lvl first [] = []"
| "iterencode_dict_loop pl d lvl first ((k, v) # dct) =
     (if first then [] else [Chunk (ascii '','' @ newline_indent lvl)])
     @ [Chunk (py_encode_basestring k), Chunk (ascii '': '')]
     @ iterencode pl d lvl v
     @ iterencode_dict_loop pl d lvl False dct"

text \<open>
  The file object is a text file with \<^verbatim>\<open>encoding='utf-8'\<close>: every chunk is encoded
  when it is written, and a chunk that cannot be encoded raises
  \<^verbatim>\<open>UnicodeEncodeError\<close>. An exception ends the writing; the chunks written before
  it stay in the file, which the \<^verbatim>\<open>with\<close> statement closes.
\<close>

fun write_chunks :: "chunk list \<Rightarrow> bytes \<Rightarrow> error option \<times> bytes" where
  "write_chunks [] data = (None, data)"
| "write_chunks (Raise e # cs) data = (Some e, data)"
| "write_chunks (Chunk s # cs) data =
     (case utf8_encode s of
        None \<Rightarrow> (Some UnicodeEncodeError, data)
      | Some bs \<Rightarrow> write_chunks cs (data @ bs))"

text \<open>
  \<^verbatim>\<open>json.dump(obj, fp, ensure_ascii=False, indent=2)\<close> into an empty file: the
  exception, if any, and the bytes of the file afterwards.
\<close>

definition json_dump :: "platform \<Rightarrow> pyobj \<Rightarrow> error option \<times> bytes" where
  "json_dump pl obj = write_chunks (iterencode pl (encode_depth pl) 0 obj) []"


section \<open>The JSON decoder\<close>

text \<open>
  \<^verbatim>\<open>json.load(f)\<close> reads the whole file and decodes the text with the scanner of the
  \<^verbatim>\<open>json\<close> module. The scanner works on the text that is left; a result is the value
  and the rest of the text.
\<close>


definition is_json_ws :: "pychar \<Rightarrow> bool" where
  "is_json_ws c \<longleftrightarrow> c = 0x20 \<or> c = 0x09 \<or> c = 0x0A \<or> c = 0x0D"

definition skip_ws :: "pystr \<Rightarrow> pystr" where
  "skip_ws s = dropWhile is_json_ws s"

definition is_digit :: "pychar \<Rightarrow> bool" where
  "is_digit c \<longleftrightarrow> 48 \<le> c \<and> c \<le> 57"

definition hex_value :: "pychar \<Rightarrow> nat option" where
  "hex_value c =
     (if 48 \<le> c \<and> c \<le> 57 then Some (c - 48)
      else if 97 \<le> c \<and> c \<le> 102 then Some (c - 87)
      else if 65 \<le> c \<and> c \<le> 70 then Some (c - 55)
      else None)"

text \<open>The four hexadecimal digits of a \<^verbatim>\<open>\uXXXX\<close> escape.\<close>

definition decode_hex4 :: "pystr \<Rightarrow> nat option" where
  "decode_hex4 s =
     (case map hex_value (take 4 s) of
        [Some a, Some b, Some c, Some d] \<Rightarrow> Some (((a * 16 + b) * 16 + c) * 16 + d)
      | _ \<Rightarrow> None)"

text \<open>The characters allowed after a backslash, other than \<^verbatim>\<open>u\<close>.\<close>

definition backslash :: "pychar \<Rightarrow> pychar option" where
  "backslash e =
     (if e = 0x22 then Some 0x22
      else if e = 0x5C then Some 0x5C
      else if e = of_char CHR ''/'' then Some (of_char CHR ''/'')
      else if e = of_char CHR ''b'' then Some 0x08
      else if e = of_char CHR ''f'' then Some 0x0C
      else if e = of_char CHR ''n'' then Some 0x0A
      else if e = of_char CHR ''r'' then Some 0x0D
      else if e = of_char CHR ''t'' then Some 0x09
      else None)"

text \<open>
  \<^verbatim>\<open>scanstring\<close> in strict mode, started after the opening quote; \<open>acc\<close> holds the
  characters decoded so far. A high surrogate escape followed by a low surrogate
  escape is joined into one code point.
\<close>

fun scanstring :: "pystr \<Rightarrow> pystr \<Rightarrow> (pystr \<times> pystr) option" where
  "scanstring [] acc = None"
| "scanstring (c # cs) acc =
     (if c = 0x22 then Some (acc, cs)
      else if c = 0x5C then
        (case cs of
           [] \<Rightarrow> None
         | e # es \<Rightarrow>
             if e = of_char CHR ''u'' then
               (case decode_hex4 es of
                  None \<Rightarrow> None
                | Some uni \<Rightarrow>
                    if 0xD800 \<le> uni \<and> uni \<le> 0xDBFF \<and> take 2 (drop 4 es) = [0x5C, of_char CHR ''u''] then
                      (case decode_hex4 (drop 6 es) of
                         None \<Rightarrow> None
                       | Some uni2 \<Rightarrow>
                           if 0xDC00 \<le> uni2 \<and> uni2 \<le> 0xDFFF then
                             scanstring (drop 10 es)
                               (acc @ [0x10000 + ((uni - 0xD800) * 1024 + (uni2 - 0xDC00))])
                           else scanstring (drop 4 es) (acc @ [uni]))
                    else scanstring (drop 4 es) (acc @ [uni]))
             else
               (case backslash e of
                  None \<Rightarrow> None
                | Some ch \<Rightarrow> scanstring es (acc @ [ch])))
      else if c \<le> 0x1F then None
      else scanstring cs (acc @ [c]))"

text \<open>
  The text a number occupies, as \<^verbatim>\<open>_match_number\<close> delimits it: an optional minus
  sign, then \<^verbatim>\<open>0\<close> or a digit from 1 to 9 followed by digits (\<open>scan_int\<close>), then a
  fraction if a dot is followed by a digit (\<open>scan_frac\<close>), then an exponent if \<^verbatim>\<open>e\<close>
  or \<^verbatim>\<open>E\<close>, an optional sign and at least one digit follow (\<open>scan_exp\<close>, which
  gives the characters back when no digit follows). The result of \<open>number_span\<close> is the
  text of the number, whether it has a fraction or an exponent, and the rest.
\<close>

definition scan_int :: "pystr \<Rightarrow> (pystr \<times> pystr) option" where
  "scan_int s =
     (case s of
        [] \<Rightarrow> None
      | c # cs \<Rightarrow>
          if 0x31 \<le> c \<and> c \<le> 0x39 then Some (c # takeWhile is_digit cs, dropWhile is_digit cs)
          else if c = 0x30 then Some ([c], cs)
          else None)"

definition scan_frac :: "pystr \<Rightarrow> pystr \<times> pystr" where
  "scan_frac s =
     (case s of
        d # f # fs \<Rightarrow>
          if d = of_char CHR ''.'' \<and> is_digit f
          then (d # takeWhile is_digit (f # fs), dropWhile is_digit (f # fs))
          else ([], s)
      | _ \<Rightarrow> ([], s))"

definition scan_exp :: "pystr \<Rightarrow> pystr \<times> pystr" where
  "scan_exp s =
     (case s of
        [] \<Rightarrow> ([], s)
      | e # es \<Rightarrow>
          if e = of_char CHR ''e'' \<or> e = of_char CHR ''E'' then
            (let (esign, ds) = (if take 1 es = ascii ''-'' \<or> take 1 es = ascii ''+''
                                then (take 1 es, drop 1 es) else ([], es))
             in if takeWhile is_digit ds \<noteq> []
                then (e # esign @ takeWhile is_digit ds, dropWhile is_digit ds)
                else ([], s))
          else ([], s))"

definition number_span :: "pystr \<Rightarrow> (pystr \<times> bool \<times> pystr) option" where
  "number_span s =
     (let (sign, s) = (if take 1 s = ascii ''-'' then (ascii ''-'', drop 1 s) else ([], s))
      in case scan_int s of
           None \<Rightarrow> None
         | Some (ip, s) \<Rightarrow>
             (let (frac, s) = scan_frac s;
                  (ex, s) = scan_exp s
              in Some (sign @ ip @ frac @ ex, frac \<noteq> [] \<or> ex \<noteq> [], s)))"


text \<open>
  \<^verbatim>\<open>int(numstr)\<close> for the text of an integer as the scanner delimits it;
  \<^verbatim>\<open>ValueError\<close> beyond the limit on digits.
\<close>

definition py_int :: "platform \<Rightarrow> pystr \<Rightarrow> error + int" where
  "py_int pl numstr =
     (let (neg, ds) = (if take 1 numstr = ascii ''-'' then (True, drop 1 numstr)
                       else (False, numstr))
      in if over_int_limit pl (length ds) then Inl ValueError
         else Inr (if neg then - int (digits_value ds) else int (digits_value ds)))"

text \<open>
  A number with a fraction or an exponent goes to \<^verbatim>\<open>float\<close>, any other to
  \<^verbatim>\<open>int\<close>. No number at this place is \<^verbatim>\<open>StopIteration\<close> in the scanner, which
  the decoder turns into \<^verbatim>\<open>JSONDecodeError\<close>.
\<close>

definition match_number :: "platform \<Rightarrow> pystr \<Rightarrow> error + (pyobj \<times> pystr)" where
  "match_number pl s =
     (case number_span s of
        None \<Rightarrow> Inl JSONDecodeError
      | Some (numstr, is_float, rest) \<Rightarrow>
          if is_float then Inr (PFloat (float_of_str pl numstr), rest)
          else (case py_int pl numstr of
                  Inl e \<Rightarrow> Inl e
                | Inr i \<Rightarrow> Inr (PInt i, rest)))"

text \<open>
  \<^verbatim>\<open>scan_once\<close>, \<^verbatim>\<open>_parse_object\<close> and \<^verbatim>\<open>_parse_array\<close>, with the two loops
  \<^verbatim>\<open>while (1)\<close> of the latter as functions of their own. \<open>d\<close> is the number of
  nested calls the recursion limit still allows: an object, an array and the call of
  \<^verbatim>\<open>parse_constant\<close> for \<^verbatim>\<open>NaN\<close>, \<^verbatim>\<open>Infinity\<close> and \<^verbatim>\<open>-Infinity\<close> need one
  each, and raise \<^verbatim>\<open>RecursionError\<close> when none is left. \<open>n\<close> bounds the number of
  calls that are still allowed; \<open>json_loads\<close> starts with more than the length of the
  text, and every call but the first comes after at least one more character has been
  read. A key that is met again replaces the value stored for it
  (\<^verbatim>\<open>PyDict_SetItem\<close>).
\<close>

function (sequential) scan_once :: "platform \<Rightarrow> nat \<Rightarrow> nat \<Rightarrow> pystr \<Rightarrow> error + (pyobj \<times> pystr)"
  and parse_object :: "platform \<Rightarrow> nat \<Rightarrow> nat \<Rightarrow> pystr \<Rightarrow> error + (pyobj \<times> pystr)"
  and parse_object_loop ::
    "platform \<Rightarrow> nat \<Rightarrow> nat \<Rightarrow> (pystr \<times> pyobj) list \<Rightarrow> pystr \<Rightarrow> error + (pyobj \<times> pystr)"
  and parse_array :: "platform \<Rightarrow> nat \<Rightarrow> nat \<Rightarrow> pystr \<Rightarrow> error + (pyobj \<times> pystr)"
  and parse_array_loop ::
    "platform \<Rightarrow> nat \<Rightarrow> nat \<Rightarrow> pyobj list \<Rightarrow> pystr \<Rightarrow> error + (pyobj \<times> pystr)"
where
  "scan_once pl d 0 s = Inl JSONDecodeError"
| "scan_once pl d (Suc n) s =
     (case s of
        [] \<Rightarrow> Inl JSONDecodeError
      | c # cs \<Rightarrow>
          if c = 0x22 then
            (case scanstring cs [] of
               None \<Rightarrow> Inl JSONDecodeError
             | Some (str, rest) \<Rightarrow> Inr (PStr str, rest))
          else if c = of_char CHR ''{'' then
            (if d = 0 then Inl RecursionError else parse_object pl (d - 1) n cs)
          else if c = of_char CHR ''['' then
            (if d = 0 then Inl RecursionError else parse_array pl (d - 1) n cs)
          else if take 4 s = ascii ''null'' then Inr (PNone, drop 4 s)
          else if take 4 s = ascii ''true'' then Inr (PBool True, drop 4 s)
          else if take 5 s = ascii ''false'' then Inr (PBool False, drop 5 s)
          else if take 3 s = ascii ''NaN'' then
            (if d = 0 then Inl RecursionError else Inr (PFloat NaN, drop 3 s))
          else if take 8 s = ascii ''Infinity'' then
            (if d = 0 then Inl RecursionError else Inr (PFloat PosInf, drop 8 s))
          else if take 9 s = ascii ''-Infinity'' then
            (if d = 0 then Inl RecursionError else Inr (PFloat NegInf, drop 9 s))
          else match_number pl s)"
| "parse_object pl d n s =
     (let s = skip_ws s
      in if take 1 s = ascii ''}'' then Inr (PDict [], drop 1 s)
         else parse_object_loop pl d n [] s)"
| "parse_object_loop pl d 0 rval s = Inl JSONDecodeError"
| "parse_object_loop pl d (Suc n) rval s =
     (if take 1 s \<noteq> [0x22] then Inl JSONDecodeError
      else case scanstring (drop 1 s) [] of
             None \<Rightarrow> Inl JSONDecodeError
           | Some (key, s) \<Rightarrow>
               (let s = skip_ws s
                in if take 1 s \<noteq> ascii '':'' then Inl JSONDecodeError
                   else case scan_once pl d n (skip_ws (drop 1 s)) of
                          Inl e \<Rightarrow> Inl e
                        | Inr (val, s) \<Rightarrow>
                            (let rval = AList.update key val rval;
                                 s = skip_ws s
                             in if take 1 s = ascii ''}'' then Inr (PDict rval, drop 1 s)
                                else if take 1 s \<noteq> ascii '','' then Inl JSONDecodeError
                                else parse_object_loop pl d n rval (skip_ws (drop 1 s)))))"
| "parse_array pl d n s =
     (let s = skip_ws s
      in if take 1 s = ascii '']'' then Inr (PList [], drop 1 s)
         else parse_array_loop pl d n [] s)"
| "parse_array_loop pl d 0 rval s = Inl JSONDecodeError"
| "parse_array_loop pl d (Suc n) rval s =
     (case scan_once pl d n s of
        Inl e \<Rightarrow> Inl e
      | Inr (val, s) \<Rightarrow>
          (let rval = rval @ [val];
               s = skip_ws s
           in if take 1 s = ascii '']'' then Inr (PList rval, drop 1 s)
              else if take 1 s \<noteq> ascii '','' then Inl JSONDecodeError
              else parse_array_loop pl d n rval (skip_ws (drop 1 s))))"
  by pat_completeness auto
termination
  by (relation "measure (\<lambda>x. case x of
        Inl (Inl (pl, d, n, s)) \<Rightarrow> 2 * n
      | Inl (Inr (pl, d, n, s)) \<Rightarrow> 2 * n + 1
      | Inr (Inl (pl, d, n, rval, s)) \<Rightarrow> 2 * n
      | Inr (Inr (Inl (pl, d, n, s))) \<Rightarrow> 2 * n + 1
      | Inr (Inr (Inr (pl, d, n, rval, s))) \<Rightarrow> 2 * n)") simp_all

text \<open>
  \<^verbatim>\<open>json.loads\<close> of a string: a leading byte order mark is refused, whitespace may
  stand before and after the one value, anything else after it is extra data.
\<close>

definition json_loads :: "platform \<Rightarrow> pystr \<Rightarrow> error + pyobj" where
  "json_loads pl s =
     (if take 1 s = [0xFEFF] then Inl JSONDecodeError
      else case scan_once pl (decode_depth pl) (Suc (length s)) (skip_ws s) of
             Inl e \<Rightarrow> Inl e
           | Inr (obj, rest) \<Rightarrow> if skip_ws rest = [] then Inr obj else Inl JSONDecodeError)"

section \<open>The splitter\<close>

text \<open>
  \<^verbatim>\<open>os.path.join(output_dir, filename)\<close> with two components, on a POSIX system.
\<close>

definition os_path_join :: "pystr \<Rightarrow> pystr \<Rightarrow> pystr" where
  "os_path_join a b =
     (if take 1 b = ascii ''/'' then b
      else if a = [] \<or> last a = of_char CHR ''/'' then a @ b
      else a @ ascii ''/'' @ b)"

text \<open>
  \<^verbatim>\<open>seen_counts\<close> is a \<^verbatim>\<open>defaultdict(int)\<close>: reading a missing key stores and
  returns 0.
\<close>

definition dd_getitem :: "(pystr \<rightharpoonup> int) \<Rightarrow> pystr \<Rightarrow> int \<times> (pystr \<rightharpoonup> int)" where
  "dd_getitem d k = (case d k of None \<Rightarrow> (0, d(k \<mapsto> 0)) | Some v \<Rightarrow> (v, d))"

text \<open>
  The state the loop of \<^verbatim>\<open>split_dictionary\<close> works on: the table \<^verbatim>\<open>seen_counts\<close>
  and the files, a map from the bytes of a path to the bytes of the file.
\<close>

record run_state =
  seen_counts :: "pystr \<rightharpoonup> int"
  files :: "bytes \<rightharpoonup> bytes"

text \<open>Lines 69 to 74: the filename for \<open>safe_title\<close> and the table after the increment.\<close>

definition choose_filename :: "(pystr \<rightharpoonup> int) \<Rightarrow> pystr \<Rightarrow> pystr \<times> (pystr \<rightharpoonup> int)" where
  "choose_filename seen safe_title =
     (let (count, seen) = dd_getitem seen safe_title;
          filename = (if count > 0 then safe_title @ ascii ''_'' @ py_str_int count @ ascii ''.json''
                      else safe_title @ ascii ''.json'');
          seen = seen(safe_title \<mapsto> count + 1)
      in (filename, seen))"

text \<open>
  Lines 76 and 77: \<^verbatim>\<open>open(output_path, 'w', encoding='utf-8')\<close> and
  \<^verbatim>\<open>json.dump\<close> in its \<^verbatim>\<open>with\<close> block. \<^verbatim>\<open>open\<close> raises when the path cannot be
  encoded or the operating system refuses it, and then no file is touched. Otherwise
  the file is created or emptied, and holds what \<^verbatim>\<open>json.dump\<close> has written when the
  block is left, with or without an exception.
\<close>

definition write_json :: "platform \<Rightarrow> pystr \<Rightarrow> pyobj \<Rightarrow> run_state \<Rightarrow> error option \<times> run_state" where
  "write_json pl output_path entry st =
     (case fsencode output_path of
        Inl e \<Rightarrow> (Some e, st)
      | Inr p \<Rightarrow>
          (case os_open_w pl p of
             Some e \<Rightarrow> (Some e, st)
           | None \<Rightarrow>
               (let (err, data) = json_dump pl entry
                in (err, st\<lparr>files := (files st)(p \<mapsto> data)\<rparr>))))"

text \<open>
  The body of the loop (lines 64 to 77) for one entry: the exception it raises, if any,
  and the state it leaves. \<^verbatim>\<open>continue\<close> leaves the state as it is. \<^verbatim>\<open>re.sub\<close>
  raises \<^verbatim>\<open>TypeError\<close> when the title is not a string. The count is incremented
  before the file is opened.
\<close>

definition process_entry ::
  "platform \<Rightarrow> pystr \<Rightarrow> pyobj \<Rightarrow> run_state \<Rightarrow> error option \<times> run_state" where
  "process_entry pl output_dir entry st =
     (case py_get entry (ascii ''title'') of
        Inl e \<Rightarrow> (Some e, st)
      | Inr title \<Rightarrow>
          if \<not> truthy title then (None, st)
          else (case title of
                  PStr t \<Rightarrow>
                    (let safe_title = sanitise_filename t;
                         (filename, seen) = choose_filename (seen_counts st) safe_title;
                         output_path = os_path_join output_dir filename
                     in write_json pl output_path entry (st\<lparr>seen_counts := seen\<rparr>))
                | _ \<Rightarrow> (Some TypeError, st)))"

text \<open>
  \<^verbatim>\<open>for entry in entries\<close> over a list: an exception ends the run and leaves the
  state reached when it was raised.
\<close>

fun split_entries ::
  "platform \<Rightarrow> pystr \<Rightarrow> pyobj list \<Rightarrow> run_state \<Rightarrow> error option \<times> run_state" where
  "split_entries pl output_dir [] st = (None, st)"
| "split_entries pl output_dir (entry # entries) st =
     (case process_entry pl output_dir entry st of
        (Some e, st') \<Rightarrow> (Some e, st')
      | (None, st') \<Rightarrow> split_entries pl output_dir entries st')"

text \<open>
  \<^verbatim>\<open>for entry in entries\<close> for whatever \<^verbatim>\<open>json.load\<close> returned: a list gives its
  elements, a dictionary its keys, a string its characters; nothing else is iterable.
\<close>

fun py_iter :: "pyobj \<Rightarrow> error + pyobj list" where
  "py_iter (PList xs) = Inr xs"
| "py_iter (PDict kvs) = Inr (map (\<lambda>(k, v). PStr k) kvs)"
| "py_iter (PStr s) = Inr (map (\<lambda>c. PStr [c]) s)"
| "py_iter _ = Inl TypeError"

text \<open>
  Line 55, \<^verbatim>\<open>os.makedirs(output_dir, exist_ok=True)\<close>: the path is encoded first;
  the empty path is \<^verbatim>\<open>FileNotFoundError\<close>. The directories themselves are not files
  of the model.
\<close>

definition py_makedirs :: "platform \<Rightarrow> pystr \<Rightarrow> error option" where
  "py_makedirs pl output_dir =
     (case fsencode output_dir of
        Inl e \<Rightarrow> Some e
      | Inr p \<Rightarrow> if p = [] then Some FileNotFoundError else os_makedirs pl p)"

text \<open>
  Line 57, \<^verbatim>\<open>open(input_file, 'r', encoding='utf-8')\<close>, and \<^verbatim>\<open>f.read()\<close> as
  \<^verbatim>\<open>json.load\<close> calls it: the text of the file, or the exception.
\<close>

definition py_read :: "platform \<Rightarrow> (bytes \<rightharpoonup> bytes) \<Rightarrow> pystr \<Rightarrow> error + pystr" where
  "py_read pl fs input_file =
     (case fsencode input_file of
        Inl e \<Rightarrow> Inl e
      | Inr p \<Rightarrow>
          (case os_open_r pl p of
             Some e \<Rightarrow> Inl e
           | None \<Rightarrow>
               (case fs p of
                  None \<Rightarrow> Inl FileNotFoundError
                | Some data \<Rightarrow>
                    (case utf8_decode data of
                       None \<Rightarrow> Inl UnicodeDecodeError
                     | Some text \<Rightarrow> Inr (universal_newlines text)))))"

text \<open>Lines 57 and 58: the value \<^verbatim>\<open>json.load\<close> returns, or the exception.\<close>

definition py_load :: "platform \<Rightarrow> (bytes \<rightharpoonup> bytes) \<Rightarrow> pystr \<Rightarrow> error + pyobj" where
  "py_load pl fs input_file =
     (case py_read pl fs input_file of
        Inl e \<Rightarrow> Inl e
      | Inr text \<Rightarrow> json_loads pl text)"

text \<open>
  \<^verbatim>\<open>split_dictionary(input_file, output_dir)\<close> on the files \<open>fs\<close>: the exception that
  ended the run, if any, and the files afterwards.
\<close>

definition split_dictionary ::
  "platform \<Rightarrow> pystr \<Rightarrow> pystr \<Rightarrow> (bytes \<rightharpoonup> bytes) \<Rightarrow> error option \<times> (bytes \<rightharpoonup> bytes)" where
  "split_dictionary pl input_file output_dir fs =
     (case py_makedirs pl output_dir of
        Some e \<Rightarrow> (Some e, fs)
      | None \<Rightarrow>
          (case py_load pl fs input_file of
             Inl e \<Rightarrow> (Some e, fs)
           | Inr entries \<Rightarrow>
               (case py_iter entries of
                  Inl e \<Rightarrow> (Some e, fs)
                | Inr es \<Rightarrow>
                    (let (err, st) = split_entries pl output_dir es
                                       \<lparr>seen_counts = Map.empty, files = fs\<rparr>
                     in (err, files st)))))"


section \<open>Notions of the specification\<close>

text \<open>
  An entry is \<^emph>\<open>processed\<close> when it is a dictionary whose \<^verbatim>\<open>title\<close> is a non-empty
  string; \<open>safe_title_of\<close> is then its sanitized title. \<open>occurrences t es\<close> counts the
  processed entries of \<open>es\<close> with sanitized title \<open>t\<close>, and \<open>suffixed_name t k\<close> is the
  file name the specification gives to the occurrence after \<open>k\<close> earlier ones:
  \<^verbatim>\<open>{sanitized_title}.json\<close> for \<open>k = 0\<close>, \<^verbatim>\<open>{sanitized_title}_{k}.json\<close> otherwise.
\<close>

fun safe_title_of :: "pyobj \<Rightarrow> pystr option" where
  "safe_title_of (PDict kvs) =
     (case map_of kvs (ascii ''title'') of
        Some (PStr t) \<Rightarrow> if t = [] then None else Some (sanitise_filename t)
      | _ \<Rightarrow> None)"
| "safe_title_of _ = None"

definition occurrences :: "pystr \<Rightarrow> pyobj list \<Rightarrow> nat" where
  "occurrences t es = length (filter (\<lambda>e. safe_title_of e = Some t) es)"

definition suffixed_name :: "pystr \<Rightarrow> nat \<Rightarrow> pystr" where
  "suffixed_name t k =
     (if k = 0 then t @ ascii ''.json''
      else t @ ascii ''_'' @ py_str_int (int k) @ ascii ''.json'')"

text \<open>The count the table holds for a title, 0 when the title is not a key.\<close>

definition table_count :: "(pystr \<rightharpoonup> int) \<Rightarrow> pystr \<Rightarrow> int" where
  "table_count seen t = (case seen t of None \<Rightarrow> 0 | Some c \<Rightarrow> c)"



section \<open>Example inputs\<close>

text \<open>
  A platform for evaluating the program: the limits of CPython 3.11 as installed, an
  operating system that grants every request. The examples hold no float.
\<close>

definition example_platform :: platform where
  "example_platform =
     \<lparr>float_repr = (\<lambda>_. ascii ''0.0''), float_of_str = (\<lambda>_. 0),
      int_max_str_digits = 4300, decode_depth = 900, encode_depth = 900,
      os_makedirs = (\<lambda>_. None), os_open_r = (\<lambda>_. None), os_open_w = (\<lambda>_. None)\<rparr>"

text \<open>Texts of input files.\<close>

definition text_not_an_array :: pystr where
  \<open>text_not_an_array = ascii ''{"not": "an array"}''\<close>

definition text_empty_object :: pystr where
  \<open>text_empty_object = ascii ''{}''\<close>

definition text_truncated :: pystr where
  \<open>text_truncated = ascii ''[{"title": "Apple"},''\<close>

definition text_suffix_collision :: pystr where
  \<open>text_suffix_collision =
     ascii ''[{"title": "Apple", "n": 1}, {"title": "Apple", "n": 2}, {"title": "Apple_1", "n": 3}]''\<close>

definition text_two_entries :: pystr where
  \<open>text_two_entries = ascii ''[{"title": "Apple"}, {"title": "Pear"}]''\<close>

definition text_nan_entry :: pystr where
  \<open>text_nan_entry = ascii ''[{"title": "A", "x": NaN}]''\<close>


section \<open>Properties of the sanitiser\<close>

lemma set_invalid_chars: "set invalid_chars = reserved_chars"
  by (simp add: invalid_chars_def reserved_chars_def)

lemma re_sub_class_map:
  "re_sub_class invalid_chars (ascii ''_'') s = map replace_reserved s"
  by (induction s) (simp_all add: set_invalid_chars replace_reserved_def ascii_def)

lemma isspace_not_reserved: "py_isspace c \<Longrightarrow> c \<notin> reserved_chars"
  by (auto simp: py_isspace_def reserved_chars_def)

lemma isspace_replace_reserved [simp]: "py_isspace (replace_reserved c) = py_isspace c"
proof (cases "c \<in> reserved_chars")
  case True
  then have "\<not> py_isspace c" using isspace_not_reserved by blast
  moreover have "\<not> py_isspace (of_char CHR ''_'')" by (simp add: py_isspace_def)
  ultimately show ?thesis using True by (simp add: replace_reserved_def)
next
  case False
  then show ?thesis by (simp add: replace_reserved_def)
qed

lemma replace_reserved_not_reserved: "replace_reserved c \<notin> reserved_chars"
  by (simp add: replace_reserved_def reserved_chars_def)

lemma dropWhile_isspace_map:
  "dropWhile py_isspace (map replace_reserved s) = map replace_reserved (dropWhile py_isspace s)"
  by (induction s) simp_all

lemma py_strip_map: "py_strip (map replace_reserved s) = map replace_reserved (py_strip s)"
  by (simp add: py_strip_def py_lstrip_def py_rstrip_def dropWhile_isspace_map rev_map)

lemma rev_dropWhile_takeWhile:
  "rev (dropWhile P (rev xs)) @ rev (takeWhile P (rev xs)) = xs"
proof -
  have "rev (dropWhile P (rev xs)) @ rev (takeWhile P (rev xs))
        = rev (takeWhile P (rev xs) @ dropWhile P (rev xs))"
    by (simp only: rev_append)
  also have "\<dots> = rev (rev xs)" by (simp only: takeWhile_dropWhile_id)
  finally show ?thesis by simp
qed

lemma py_lstrip_split:
  "py_lstrip s = py_strip s @ rev (takeWhile py_isspace (rev (py_lstrip s)))"
  unfolding py_strip_def py_rstrip_def by (simp only: rev_dropWhile_takeWhile)

lemma py_strip_decompose:
  "\<exists>pre suf. s = pre @ py_strip s @ suf \<and> (\<forall>c\<in>set pre. py_isspace c) \<and> (\<forall>c\<in>set suf. py_isspace c)"
proof -
  let ?pre = "takeWhile py_isspace s"
  let ?suf = "rev (takeWhile py_isspace (rev (py_lstrip s)))"
  have "s = ?pre @ py_lstrip s" by (simp add: py_lstrip_def)
  moreover have "?pre @ py_lstrip s = ?pre @ py_strip s @ ?suf"
    by (rule arg_cong [OF py_lstrip_split])
  ultimately have "s = ?pre @ py_strip s @ ?suf" by (rule trans)
  moreover have "\<forall>c\<in>set ?pre. py_isspace c"
    by (auto dest: set_takeWhileD)
  moreover have "\<forall>c\<in>set ?suf. py_isspace c"
    by (auto dest: set_takeWhileD)
  ultimately show ?thesis by blast
qed

lemma py_strip_no_leading: "py_strip s \<noteq> [] \<Longrightarrow> \<not> py_isspace (hd (py_strip s))"
proof -
  assume ne: "py_strip s \<noteq> []"
  have split: "py_lstrip s = py_strip s @ rev (takeWhile py_isspace (rev (py_lstrip s)))"
    by (rule py_lstrip_split)
  have "hd (py_lstrip s) = hd (py_strip s)"
    by (subst split) (simp add: ne)
  moreover have "py_lstrip s \<noteq> []"
    by (subst split) (simp add: ne)
  ultimately show ?thesis
    unfolding py_lstrip_def using hd_dropWhile by metis
qed

lemma py_strip_no_trailing: "py_strip s \<noteq> [] \<Longrightarrow> \<not> py_isspace (last (py_strip s))"
proof -
  assume ne: "py_strip s \<noteq> []"
  let ?r = "dropWhile py_isspace (rev (dropWhile py_isspace s))"
  have eq: "py_strip s = rev ?r"
    by (simp add: py_strip_def py_lstrip_def py_rstrip_def)
  then have "?r \<noteq> []" using ne by simp
  then have "\<not> py_isspace (hd ?r)" using hd_dropWhile by blast
  then show ?thesis using eq \<open>?r \<noteq> []\<close> by (simp add: last_rev)
qed

text \<open>
  C1. For every string \<open>s\<close>, \<open>sanitise_filename s\<close> is \<open>s\<close> with every reserved
  character replaced by an underscore and then stripped of leading and trailing
  whitespace. The result holds no reserved character, neither starts nor ends with
  whitespace, and is the replaced image of the part \<open>mid\<close> of \<open>s\<close> that is left when
  the whitespace at both ends is removed: every character of \<open>mid\<close> that is not
  reserved, ASCII or not, stands unchanged at its position.
\<close>

theorem sanitise_filename_replace_then_strip:
  "sanitise_filename s = py_strip (map replace_reserved s)
   \<and> (\<forall>c\<in>set (sanitise_filename s). c \<notin> reserved_chars)
   \<and> (sanitise_filename s \<noteq> [] \<longrightarrow>
        \<not> py_isspace (hd (sanitise_filename s)) \<and> \<not> py_isspace (last (sanitise_filename s)))
   \<and> (\<exists>pre mid suf. s = pre @ mid @ suf
        \<and> (\<forall>c\<in>set pre. py_isspace c) \<and> (\<forall>c\<in>set suf. py_isspace c)
        \<and> length (sanitise_filename s) = length mid
        \<and> (\<forall>i<length mid. sanitise_filename s ! i =
              (if mid ! i \<in> reserved_chars then of_char CHR ''_'' else mid ! i)))"
proof -
  have eq: "sanitise_filename s = py_strip (map replace_reserved s)"
    by (simp add: sanitise_filename_def re_sub_class_map)
  have eq2: "sanitise_filename s = map replace_reserved (py_strip s)"
    using eq py_strip_map by simp
  have a: "\<forall>c\<in>set (sanitise_filename s). c \<notin> reserved_chars"
    using eq2 replace_reserved_not_reserved by auto
  have b: "sanitise_filename s \<noteq> [] \<longrightarrow>
        \<not> py_isspace (hd (sanitise_filename s)) \<and> \<not> py_isspace (last (sanitise_filename s))"
    using eq py_strip_no_leading py_strip_no_trailing by simp
  obtain pre suf where d: "s = pre @ py_strip s @ suf"
      "\<forall>c\<in>set pre. py_isspace c" "\<forall>c\<in>set suf. py_isspace c"
    using py_strip_decompose by blast
  have nth: "\<forall>i<length (py_strip s). sanitise_filename s ! i =
          (if py_strip s ! i \<in> reserved_chars then of_char CHR ''_'' else py_strip s ! i)"
    using eq2 by (simp add: replace_reserved_def)
  have len: "length (sanitise_filename s) = length (py_strip s)" using eq2 by simp
  have c: "\<exists>pre mid suf. s = pre @ mid @ suf
        \<and> (\<forall>c\<in>set pre. py_isspace c) \<and> (\<forall>c\<in>set suf. py_isspace c)
        \<and> length (sanitise_filename s) = length mid
        \<and> (\<forall>i<length mid. sanitise_filename s ! i =
              (if mid ! i \<in> reserved_chars then of_char CHR ''_'' else mid ! i))"
    by (rule exI [of _ pre], rule exI [of _ "py_strip s"], rule exI [of _ suf])
       (rule conjI [OF d(1) conjI [OF d(2) conjI [OF d(3) conjI [OF len nth]]]])
  show ?thesis by (rule conjI [OF eq conjI [OF a conjI [OF b c]]])
qed

text \<open>
  The theorem at the title \<open>" a/b:\<close>U+6C34\<open> "\<close>: the slash and the colon become
  underscores, the ideograph is kept, the blanks at both ends go.
\<close>

theorem sanitise_filename_replace_then_strip_witness:
  "sanitise_filename [0x20, 0x61, 0x2F, 0x62, 0x3A, 0x6C34, 0x20] = [0x61, 0x5F, 0x62, 0x5F, 0x6C34]
   \<and> set (sanitise_filename [0x20, 0x61, 0x2F, 0x62, 0x3A, 0x6C34, 0x20]) \<inter> reserved_chars = {}
   \<and> \<not> py_isspace (hd (sanitise_filename [0x20, 0x61, 0x2F, 0x62, 0x3A, 0x6C34, 0x20]))
   \<and> \<not> py_isspace (last (sanitise_filename [0x20, 0x61, 0x2F, 0x62, 0x3A, 0x6C34, 0x20]))"
proof -
  let ?s = "[0x20, 0x61, 0x2F, 0x62, 0x3A, 0x6C34, 0x20] :: pystr"
  note inst = sanitise_filename_replace_then_strip [of ?s]
  have val: "py_strip (map replace_reserved ?s) = [0x61, 0x5F, 0x62, 0x5F, 0x6C34]"
    by (simp add: replace_reserved_def reserved_chars_def py_strip_def py_lstrip_def
        py_rstrip_def py_isspace_def)
  have eq: "sanitise_filename ?s = [0x61, 0x5F, 0x62, 0x5F, 0x6C34]"
    using inst [THEN conjunct1] val by simp
  have ne: "sanitise_filename ?s \<noteq> []" using eq by simp
  have "\<forall>c\<in>set (sanitise_filename ?s). c \<notin> reserved_chars"
    by (rule inst [THEN conjunct2, THEN conjunct1])
  then have a: "set (sanitise_filename ?s) \<inter> reserved_chars = {}"
    by blast
  have b: "\<not> py_isspace (hd (sanitise_filename ?s)) \<and> \<not> py_isspace (last (sanitise_filename ?s))"
    using inst [THEN conjunct2, THEN conjunct2, THEN conjunct1] ne by (rule mp)
  show ?thesis by (rule conjI [OF eq conjI [OF a b]])
qed


section \<open>Encoding text as UTF-8\<close>

lemma utf8_encode_Nil [simp]: "utf8_encode [] = Some []"
  by (simp add: utf8_encode_def)










lemma scalar_text_None:
  "scalar_text pl d v = None \<longleftrightarrow> (\<exists>xs. v = PList xs) \<or> (\<exists>kvs. v = PDict kvs)"
  by (cases v) auto



section \<open>Decimal digits\<close>

lemma digits_value_snoc: "digits_value (ds @ [d]) = 10 * digits_value ds + (d - 48)"
  by (simp add: digits_value_def)

lemma digits_value_nat_digits: "digits_value (nat_digits n) = n"
proof (induction n rule: nat_digits.induct)
  case (1 n)
  show ?case
  proof (cases "n < 10")
    case True
    then show ?thesis by (subst nat_digits.simps) (simp add: digits_value_def)
  next
    case False
    then have "digits_value (nat_digits n) = 10 * digits_value (nat_digits (n div 10)) + n mod 10"
      by (subst nat_digits.simps) (simp add: digits_value_snoc)
    then show ?thesis using 1 False by simp
  qed
qed

lemma nat_digits_inj: "nat_digits m = nat_digits n \<Longrightarrow> m = n"
  by (metis digits_value_nat_digits)

lemma py_str_int_of_nat: "py_str_int (int k) = nat_digits k"
  by (simp add: py_str_int_def)

lemma suffixed_name_inj: "suffixed_name t j = suffixed_name t k \<Longrightarrow> j = k"
  by (auto simp: suffixed_name_def py_str_int_of_nat ascii_def dest: nat_digits_inj split: if_splits)

section \<open>One step of the loop\<close>

lemma table_count_upd [simp]:
  "table_count (seen(t \<mapsto> c)) u = (if u = t then c else table_count seen u)"
  by (simp add: table_count_def)

lemma table_count_empty [simp]: "table_count Map.empty t = 0"
  by (simp add: table_count_def)

lemma choose_filename_eq:
  "choose_filename seen t =
     (if table_count seen t > 0 then t @ ascii ''_'' @ py_str_int (table_count seen t) @ ascii ''.json''
      else t @ ascii ''.json'',
      seen(t \<mapsto> table_count seen t + 1))"
  by (simp add: choose_filename_def dd_getitem_def table_count_def split: option.splits)

lemma choose_filename_suffixed:
  "table_count seen t = int k \<Longrightarrow>
   choose_filename seen t = (suffixed_name t k, seen(t \<mapsto> int k + 1))"
  by (simp add: choose_filename_eq suffixed_name_def)

lemma write_json_seen_counts:
  "seen_counts (snd (write_json pl path e st)) = seen_counts st"
  by (simp add: write_json_def split_beta split: sum.splits option.splits)


lemma process_entry_processed:
  "safe_title_of e = Some t \<Longrightarrow>
   process_entry pl out e st =
     write_json pl (os_path_join out (fst (choose_filename (seen_counts st) t))) e
       (st\<lparr>seen_counts := snd (choose_filename (seen_counts st) t)\<rparr>)"
  by (cases e)
     (auto simp: process_entry_def Let_def split_beta split: option.splits pyobj.splits if_splits)

lemma process_entry_not_processed:
  "safe_title_of e = None \<Longrightarrow> process_entry pl out e st = (None, st') \<Longrightarrow> st' = st"
  by (cases e)
     (auto simp: process_entry_def Let_def split_beta split: option.splits pyobj.splits if_splits)

lemma process_entry_count:
  assumes "process_entry pl out e st = (None, st')"
  shows "table_count (seen_counts st') t =
         table_count (seen_counts st) t + (if safe_title_of e = Some t then 1 else 0)"
proof (cases "safe_title_of e")
  case None
  then show ?thesis using process_entry_not_processed [OF None assms] by simp
next
  case (Some u)
  have "seen_counts st' = seen_counts (snd (process_entry pl out e st))" using assms by simp
  also have "\<dots> = snd (choose_filename (seen_counts st) u)"
    by (simp add: process_entry_processed [OF Some] write_json_seen_counts)
  finally show ?thesis using Some by (simp add: choose_filename_eq)
qed

section \<open>The loop\<close>

lemma split_entries_append:
  "split_entries pl out (es1 @ es2) st =
     (case split_entries pl out es1 st of
        (Some e, st') \<Rightarrow> (Some e, st')
      | (None, st') \<Rightarrow> split_entries pl out es2 st')"
  by (induction es1 arbitrary: st) (auto split: prod.splits option.splits)


lemma split_entries_count:
  "split_entries pl out es st = (None, st') \<Longrightarrow>
   table_count (seen_counts st') t = table_count (seen_counts st) t + int (occurrences t es)"
proof (induction es arbitrary: st)
  case Nil
  then show ?case by (simp add: occurrences_def)
next
  case (Cons e es)
  then obtain st1 where s1: "process_entry pl out e st = (None, st1)"
      and r: "split_entries pl out es st1 = (None, st')"
    by (auto split: prod.splits option.splits)
  have "table_count (seen_counts st') t = table_count (seen_counts st1) t + int (occurrences t es)"
    using Cons.IH [OF r] .
  also have "table_count (seen_counts st1) t =
      table_count (seen_counts st) t + (if safe_title_of e = Some t then 1 else 0)"
    using process_entry_count [OF s1] .
  finally show ?case by (simp add: occurrences_def)
qed

lemma split_entries_prefix_ok:
  "fst (split_entries pl out es st) = None \<Longrightarrow> n \<le> length es \<Longrightarrow>
   fst (split_entries pl out (take n es) st) = None"
proof -
  assume a: "fst (split_entries pl out es st) = None" and "n \<le> length es"
  have "es = take n es @ drop n es" by simp
  then have "split_entries pl out es st =
     (case split_entries pl out (take n es) st of
        (Some e, st') \<Rightarrow> (Some e, st')
      | (None, st') \<Rightarrow> split_entries pl out (drop n es) st')"
    using split_entries_append [of pl out "take n es" "drop n es" st] by simp
  then show ?thesis using a by (auto split: prod.splits option.splits)
qed

lemma prefix_count:
  assumes "fst (split_entries pl out (take n es) \<lparr>seen_counts = Map.empty, files = fs\<rparr>) = None"
  shows "table_count (seen_counts (snd (split_entries pl out (take n es)
            \<lparr>seen_counts = Map.empty, files = fs\<rparr>))) t = int (occurrences t (take n es))"
proof -
  obtain st where "split_entries pl out (take n es) \<lparr>seen_counts = Map.empty, files = fs\<rparr> = (None, st)"
    using assms by (metis prod.collapse)
  then show ?thesis using split_entries_count [of pl out "take n es" _ st t] by simp
qed

lemma occurrences_take_less:
  assumes "i < j" "j \<le> length es" "safe_title_of (es ! i) = Some t"
  shows "occurrences t (take i es) < occurrences t (take j es)"
proof -
  have "take j es = take i es @ es ! i # take (j - Suc i) (drop (Suc i) es)"
    using assms(1,2)
    by (metis Suc_leI le_add_diff_inverse less_le_trans take_add take_Suc_conv_app_nth append.assoc append_Cons append_Nil order_less_le_trans)
  then show ?thesis using assms(3) by (simp add: occurrences_def)
qed

lemma prefix_of_prefix_ok:
  assumes "fst (split_entries pl out (take j es) st) = None" "i \<le> j"
  shows "fst (split_entries pl out (take i es) st) = None"
proof (cases "i \<le> length (take j es)")
  case True
  have "take i (take j es) = take i es" using assms(2) by (simp add: min_def)
  then show ?thesis using split_entries_prefix_ok [OF assms(1) True] by simp
next
  case False
  then have "length es < i" "length es \<le> j" using assms(2) by auto
  then have "take i es = take j es" by simp
  then show ?thesis using assms(1) by simp
qed

section \<open>Duplicate titles\<close>




lemmas run_defs = process_entry_def write_json_def json_dump_def choose_filename_def dd_getitem_def
  sanitise_filename_def ascii_def invalid_chars_def py_strip_def py_lstrip_def py_rstrip_def
  py_isspace_def os_path_join_def py_str_int_def nat_digits.simps Let_def
  fsencode_def fsencode_char_def utf8_encode_def utf8_encode_char_def example_platform_def
  int_repr_def over_int_limit_def py_encode_basestring_def escape_char_def newline_indent_def

lemma replicate_numeral: "replicate (numeral k) x = x # replicate (pred_numeral k) x"
  by (simp add: numeral_eq_Suc)







lemma suffixed_Apple:
  "suffixed_name (ascii ''Apple'') 0 = ascii ''Apple.json''"
  "suffixed_name (ascii ''Apple'') 1 = ascii ''Apple_1.json''"
  "suffixed_name (ascii ''Apple'') (Suc 0) = ascii ''Apple_1.json''"
  "suffixed_name (ascii ''Apple'') 2 = ascii ''Apple_2.json''"
  by (simp_all add: suffixed_name_def ascii_def py_str_int_def nat_digits.simps)





text \<open>
  C3. The count of a sanitized title grows by exactly 1 with every processed entry of
  that title and by nothing else, so after any prefix of the run that raised no
  exception the table holds, for every title, the number of processed entries of the
  prefix with that title. Hence two processed entries at positions \<open>i < j\<close> with the
  same sanitized title get different file names, the names the specification gives
  to their occurrence numbers, and the earlier entry has the smaller number.
\<close>

theorem distinct_filenames_and_count_invariant:
  "(\<forall>e st st' t. process_entry pl out e st = (None, st') \<longrightarrow>
        table_count (seen_counts st') t =
        table_count (seen_counts st) t + (if safe_title_of e = Some t then 1 else 0))
   \<and> (\<forall>n t. fst (split_entries pl out (take n es) \<lparr>seen_counts = Map.empty, files = fs\<rparr>) = None \<longrightarrow>
        table_count (seen_counts (snd (split_entries pl out (take n es)
            \<lparr>seen_counts = Map.empty, files = fs\<rparr>))) t = int (occurrences t (take n es)))
   \<and> (\<forall>i j t. i < j \<and> j < length es
        \<and> fst (split_entries pl out (take j es) \<lparr>seen_counts = Map.empty, files = fs\<rparr>) = None
        \<and> safe_title_of (es ! i) = Some t \<and> safe_title_of (es ! j) = Some t \<longrightarrow>
        (let fi = fst (choose_filename (seen_counts (snd (split_entries pl out (take i es)
                         \<lparr>seen_counts = Map.empty, files = fs\<rparr>))) t);
             fj = fst (choose_filename (seen_counts (snd (split_entries pl out (take j es)
                         \<lparr>seen_counts = Map.empty, files = fs\<rparr>))) t)
         in fi \<noteq> fj
            \<and> fi = suffixed_name t (occurrences t (take i es))
            \<and> fj = suffixed_name t (occurrences t (take j es))
            \<and> occurrences t (take i es) < occurrences t (take j es)))"
proof (intro conjI allI impI)
  fix e st st' t
  assume "process_entry pl out e st = (None, st')"
  then show "table_count (seen_counts st') t =
        table_count (seen_counts st) t + (if safe_title_of e = Some t then 1 else 0)"
    by (rule process_entry_count)
next
  fix n t
  assume "fst (split_entries pl out (take n es) \<lparr>seen_counts = Map.empty, files = fs\<rparr>) = None"
  then show "table_count (seen_counts (snd (split_entries pl out (take n es)
            \<lparr>seen_counts = Map.empty, files = fs\<rparr>))) t = int (occurrences t (take n es))"
    by (rule prefix_count)
next
  fix i j t
  let ?st0 = "\<lparr>seen_counts = Map.empty, files = fs\<rparr>"
  assume a: "i < j \<and> j < length es
        \<and> fst (split_entries pl out (take j es) ?st0) = None
        \<and> safe_title_of (es ! i) = Some t \<and> safe_title_of (es ! j) = Some t"
  then have okj: "fst (split_entries pl out (take j es) ?st0) = None" by simp
  have oki: "fst (split_entries pl out (take i es) ?st0) = None"
    using prefix_of_prefix_ok [OF okj, of i] a by simp
  have ci: "table_count (seen_counts (snd (split_entries pl out (take i es) ?st0))) t
      = int (occurrences t (take i es))" using prefix_count [OF oki] .
  have cj: "table_count (seen_counts (snd (split_entries pl out (take j es) ?st0))) t
      = int (occurrences t (take j es))" using prefix_count [OF okj] .
  have lt: "occurrences t (take i es) < occurrences t (take j es)"
    using occurrences_take_less [of i j es t] a by simp
  have fi: "fst (choose_filename (seen_counts (snd (split_entries pl out (take i es) ?st0))) t)
      = suffixed_name t (occurrences t (take i es))"
    by (simp add: choose_filename_suffixed [OF ci])
  have fj: "fst (choose_filename (seen_counts (snd (split_entries pl out (take j es) ?st0))) t)
      = suffixed_name t (occurrences t (take j es))"
    by (simp add: choose_filename_suffixed [OF cj])
  have ne: "suffixed_name t (occurrences t (take i es)) \<noteq> suffixed_name t (occurrences t (take j es))"
    using lt suffixed_name_inj by fastforce
  show "let fi = fst (choose_filename (seen_counts (snd (split_entries pl out (take i es) ?st0))) t);
             fj = fst (choose_filename (seen_counts (snd (split_entries pl out (take j es) ?st0))) t)
         in fi \<noteq> fj
            \<and> fi = suffixed_name t (occurrences t (take i es))
            \<and> fj = suffixed_name t (occurrences t (take j es))
            \<and> occurrences t (take i es) < occurrences t (take j es)"
    unfolding Let_def fi fj using ne lt by simp
qed

text \<open>The theorem at the titles \<open>Apple\<close>, \<open>Pear\<close>, \<open>Apple\<close>.\<close>

theorem distinct_filenames_and_count_invariant_witness:
  "table_count (seen_counts (snd (split_entries example_platform (ascii ''out'')
       [PDict [(ascii ''title'', PStr (ascii ''Apple''))],
        PDict [(ascii ''title'', PStr (ascii ''Pear''))],
        PDict [(ascii ''title'', PStr (ascii ''Apple''))]]
       \<lparr>seen_counts = Map.empty, files = Map.empty\<rparr>))) (ascii ''Apple'') = 2
   \<and> fst (choose_filename (seen_counts (snd (split_entries example_platform (ascii ''out'') []
       \<lparr>seen_counts = Map.empty, files = Map.empty\<rparr>))) (ascii ''Apple'')) = ascii ''Apple.json''
   \<and> fst (choose_filename (seen_counts (snd (split_entries example_platform (ascii ''out'')
       [PDict [(ascii ''title'', PStr (ascii ''Apple''))],
        PDict [(ascii ''title'', PStr (ascii ''Pear''))]]
       \<lparr>seen_counts = Map.empty, files = Map.empty\<rparr>))) (ascii ''Apple'')) = ascii ''Apple_1.json''
   \<and> ascii ''Apple.json'' \<noteq> ascii ''Apple_1.json''"
proof -
  let ?pl = example_platform
  let ?a = "PDict [(ascii ''title'', PStr (ascii ''Apple''))]"
  let ?b = "PDict [(ascii ''title'', PStr (ascii ''Pear''))]"
  let ?es = "[?a, ?b, ?a]"
  let ?st0 = "\<lparr>seen_counts = Map.empty, files = Map.empty :: bytes \<rightharpoonup> bytes\<rparr>"
  note inst = distinct_filenames_and_count_invariant [of ?pl "ascii ''out''" ?es Map.empty]
  have ta: "safe_title_of ?a = Some (ascii ''Apple'')"
    by (simp add: sanitise_filename_def ascii_def invalid_chars_def py_strip_def py_lstrip_def
        py_rstrip_def py_isspace_def)
  have tb: "safe_title_of ?b = Some (ascii ''Pear'')"
    by (simp add: sanitise_filename_def ascii_def invalid_chars_def py_strip_def py_lstrip_def
        py_rstrip_def py_isspace_def)
  have neq: "ascii ''Pear'' \<noteq> ascii ''Apple''" by (simp add: ascii_def)
  have ok3: "fst (split_entries ?pl (ascii ''out'') (take 3 ?es) ?st0) = None"
    by (simp add: run_defs replicate_numeral)
  have ok2: "fst (split_entries ?pl (ascii ''out'') (take 2 ?es) ?st0) = None"
    by (simp add: run_defs replicate_numeral)
  have t3: "take 3 ?es = ?es" and t2: "take 2 ?es = [?a, ?b]" and t0: "take 0 ?es = []"
    by simp_all
  have occ3: "occurrences (ascii ''Apple'') ?es = 2"
    using ta tb neq by (simp add: occurrences_def)
  have occ2: "occurrences (ascii ''Apple'') [?a, ?b] = 1"
    using ta tb neq by (simp add: occurrences_def)
  have occ0: "occurrences (ascii ''Apple'') [] = 0"
    by (simp add: occurrences_def)
  have c: "table_count (seen_counts (snd (split_entries ?pl (ascii ''out'') (take 3 ?es) ?st0)))
       (ascii ''Apple'') = int (occurrences (ascii ''Apple'') (take 3 ?es))"
    using inst [THEN conjunct2, THEN conjunct1, rule_format, OF ok3] .
  have h: "0 < (2::nat) \<and> 2 < length ?es
        \<and> fst (split_entries ?pl (ascii ''out'') (take 2 ?es) ?st0) = None
        \<and> safe_title_of (?es ! 0) = Some (ascii ''Apple'')
        \<and> safe_title_of (?es ! 2) = Some (ascii ''Apple'')"
    using ok2 ta by simp
  have d: "fst (choose_filename (seen_counts (snd (split_entries ?pl (ascii ''out'') (take 0 ?es) ?st0)))
              (ascii ''Apple''))
         \<noteq> fst (choose_filename (seen_counts (snd (split_entries ?pl (ascii ''out'') (take 2 ?es) ?st0)))
              (ascii ''Apple''))
       \<and> fst (choose_filename (seen_counts (snd (split_entries ?pl (ascii ''out'') (take 0 ?es) ?st0)))
              (ascii ''Apple''))
         = suffixed_name (ascii ''Apple'') (occurrences (ascii ''Apple'') (take 0 ?es))
       \<and> fst (choose_filename (seen_counts (snd (split_entries ?pl (ascii ''out'') (take 2 ?es) ?st0)))
              (ascii ''Apple''))
         = suffixed_name (ascii ''Apple'') (occurrences (ascii ''Apple'') (take 2 ?es))
       \<and> occurrences (ascii ''Apple'') (take 0 ?es) < occurrences (ascii ''Apple'') (take 2 ?es)"
    using inst [THEN conjunct2, THEN conjunct2, rule_format, OF h] unfolding Let_def .
  have c1: "table_count (seen_counts (snd (split_entries ?pl (ascii ''out'') ?es ?st0)))
       (ascii ''Apple'') = 2"
    using c by (simp only: t3 occ3 of_nat_numeral)
  have c2: "fst (choose_filename (seen_counts (snd (split_entries ?pl (ascii ''out'') [] ?st0)))
              (ascii ''Apple'')) = ascii ''Apple.json''"
    using d [THEN conjunct2, THEN conjunct1] by (simp only: t0 occ0 suffixed_Apple)
  have c3: "fst (choose_filename (seen_counts (snd (split_entries ?pl (ascii ''out'') [?a, ?b] ?st0)))
              (ascii ''Apple'')) = ascii ''Apple_1.json''"
    using d [THEN conjunct2, THEN conjunct2, THEN conjunct1] by (simp only: t2 occ2 suffixed_Apple)
  have c4: "ascii ''Apple.json'' \<noteq> ascii ''Apple_1.json''"
    using d [THEN conjunct1] by (simp only: t0 t2 c2 c3 not_False_eq_True)
  show ?thesis using c1 c2 c3 c4 by (intro conjI)
qed

section \<open>Skipped entries\<close>

lemma process_entry_falsy:
  "map_of kvs (ascii ''title'') = None \<or>
   (\<exists>v. map_of kvs (ascii ''title'') = Some v \<and> \<not> truthy v) \<Longrightarrow>
   process_entry pl out (PDict kvs) st = (None, st)"
  by (auto simp: process_entry_def)

lemma split_entries_drop_skipped:
  assumes "\<And>st. process_entry pl out e st = (None, st)"
  shows "split_entries pl out (es1 @ e # es2) st = split_entries pl out (es1 @ es2) st"
proof -
  have "\<And>st'. split_entries pl out (e # es2) st' = split_entries pl out es2 st'"
    using assms by simp
  then show ?thesis by (simp only: split_entries_append)
qed

lemma process_entry_truthy_str:
  "map_of kvs (ascii ''title'') = Some (PStr t) \<Longrightarrow> t \<noteq> [] \<Longrightarrow>
   process_entry pl out (PDict kvs) st =
     write_json pl
       (os_path_join out (fst (choose_filename (seen_counts st) (sanitise_filename t))))
       (PDict kvs)
       (st\<lparr>seen_counts := snd (choose_filename (seen_counts st) (sanitise_filename t))\<rparr>)"
  by (rule process_entry_processed) simp

lemma choose_filename_changes: "snd (choose_filename seen t) \<noteq> seen"
proof -
  have "table_count (snd (choose_filename seen t)) t \<noteq> table_count seen t"
    by (simp add: choose_filename_eq)
  then show ?thesis by metis
qed

lemma process_entry_truthy_changes:
  assumes "map_of kvs (ascii ''title'') = Some v" "truthy v"
  shows "process_entry pl out (PDict kvs) st \<noteq> (None, st)"
proof (cases v)
  case (PStr t)
  then have ne: "t \<noteq> []" using assms(2) by simp
  have "seen_counts (snd (process_entry pl out (PDict kvs) st))
      = snd (choose_filename (seen_counts st) (sanitise_filename t))"
    using process_entry_truthy_str [of kvs t pl out st] assms(1) PStr ne
    by (simp add: write_json_seen_counts)
  then have "seen_counts (snd (process_entry pl out (PDict kvs) st)) \<noteq> seen_counts st"
    using choose_filename_changes by metis
  then show ?thesis by (metis snd_conv)
qed (use assms in \<open>auto simp: process_entry_def\<close>)

text \<open>
  C7. A dictionary entry whose \<^verbatim>\<open>title\<close> is the empty string or is absent is skipped
  without an exception: processing it returns the state as it was, so no file is
  written and the table of counts is unchanged. A run over any sequence that holds
  such an entry is the run over the sequence without it: same exception or none, same
  counts, same files, so the names given to all other entries are the same.
\<close>

theorem untitled_entry_skipped:
  "map_of kvs (ascii ''title'') = None \<or> map_of kvs (ascii ''title'') = Some (PStr []) \<Longrightarrow>
   process_entry pl out (PDict kvs) st = (None, st)
   \<and> split_entries pl out (es1 @ PDict kvs # es2) st = split_entries pl out (es1 @ es2) st"
proof -
  assume a: "map_of kvs (ascii ''title'') = None \<or> map_of kvs (ascii ''title'') = Some (PStr [])"
  then have f: "map_of kvs (ascii ''title'') = None \<or>
      (\<exists>v. map_of kvs (ascii ''title'') = Some v \<and> \<not> truthy v)" by auto
  have s: "\<And>st. process_entry pl out (PDict kvs) st = (None, st)"
    using process_entry_falsy [OF f] .
  show ?thesis using s split_entries_drop_skipped [of pl out "PDict kvs" es1 es2 st, OF s]
    by simp
qed

text \<open>The theorem at an entry with an empty title and at one with no title.\<close>

theorem untitled_entry_skipped_witness:
  "process_entry example_platform (ascii ''out'') (PDict [(ascii ''title'', PStr [])])
       \<lparr>seen_counts = [ascii ''Apple'' \<mapsto> 1], files = Map.empty\<rparr> =
     (None, \<lparr>seen_counts = [ascii ''Apple'' \<mapsto> 1], files = Map.empty\<rparr>)
   \<and> split_entries example_platform (ascii ''out'')
       ([PDict [(ascii ''title'', PStr (ascii ''Apple''))]]
         @ PDict [(ascii ''title'', PStr [])] # [PDict [(ascii ''title'', PStr (ascii ''Apple''))]])
       \<lparr>seen_counts = Map.empty, files = Map.empty\<rparr> =
     split_entries example_platform (ascii ''out'')
       ([PDict [(ascii ''title'', PStr (ascii ''Apple''))]]
         @ [PDict [(ascii ''title'', PStr (ascii ''Apple''))]])
       \<lparr>seen_counts = Map.empty, files = Map.empty\<rparr>
   \<and> process_entry example_platform (ascii ''out'') (PDict [(ascii ''pos'', PStr (ascii ''N''))])
       \<lparr>seen_counts = [ascii ''Apple'' \<mapsto> 1], files = Map.empty\<rparr> =
     (None, \<lparr>seen_counts = [ascii ''Apple'' \<mapsto> 1], files = Map.empty\<rparr>)"
proof -
  have h1: "map_of [(ascii ''title'', PStr [])] (ascii ''title'') = None
      \<or> map_of [(ascii ''title'', PStr [])] (ascii ''title'') = Some (PStr [])" by simp
  have h2: "map_of [(ascii ''pos'', PStr (ascii ''N''))] (ascii ''title'') = None
      \<or> map_of [(ascii ''pos'', PStr (ascii ''N''))] (ascii ''title'') = Some (PStr [])"
    by (simp add: ascii_def)
  note a = untitled_entry_skipped [OF h1, of example_platform "ascii ''out''"
      "\<lparr>seen_counts = [ascii ''Apple'' \<mapsto> 1], files = Map.empty\<rparr>" "[]" "[]", THEN conjunct1]
  note b = untitled_entry_skipped [OF h1, of example_platform "ascii ''out''"
      "\<lparr>seen_counts = Map.empty, files = Map.empty\<rparr>"
      "[PDict [(ascii ''title'', PStr (ascii ''Apple''))]]"
      "[PDict [(ascii ''title'', PStr (ascii ''Apple''))]]", THEN conjunct2]
  note c = untitled_entry_skipped [OF h2, of example_platform "ascii ''out''"
      "\<lparr>seen_counts = [ascii ''Apple'' \<mapsto> 1], files = Map.empty\<rparr>" "[]" "[]", THEN conjunct1]
  show ?thesis using a b c by (intro conjI)
qed

text \<open>
  C10. The test is falsiness. \<^verbatim>\<open>None\<close>, \<^verbatim>\<open>False\<close>, \<^verbatim>\<open>0\<close>, \<^verbatim>\<open>0.0\<close>, the empty
  string, the empty list and the empty dictionary are falsy; a dictionary entry whose
  \<^verbatim>\<open>title\<close> is falsy is skipped like one without the key: the state is returned as
  it was and no exception is raised. Only a truthy title goes on, and then the step is
  never a silent skip. A truthy title that is not a string raises \<^verbatim>\<open>TypeError\<close> in
  \<^verbatim>\<open>re.sub\<close> and leaves the state as it was. A truthy string is sanitised, its count
  is incremented, and lines 76 and 77 are run for the file name chosen; whether they
  raise or not, the table holds the incremented count afterwards.
\<close>

theorem falsy_title_skipped:
  "(v \<in> {PNone, PBool False, PInt 0, PFloat 0, PStr [], PList [], PDict []} \<longrightarrow> \<not> truthy v)
   \<and> (map_of kvs (ascii ''title'') = Some v \<and> \<not> truthy v \<longrightarrow>
        process_entry pl out (PDict kvs) st = (None, st))
   \<and> (map_of kvs' (ascii ''title'') = None \<longrightarrow>
        process_entry pl out (PDict kvs') st = (None, st))
   \<and> (map_of kvs (ascii ''title'') = Some v \<and> truthy v \<longrightarrow>
        process_entry pl out (PDict kvs) st \<noteq> (None, st)
        \<and> (case v of
              PStr t \<Rightarrow>
                process_entry pl out (PDict kvs) st =
                  write_json pl
                    (os_path_join out (fst (choose_filename (seen_counts st) (sanitise_filename t))))
                    (PDict kvs)
                    (st\<lparr>seen_counts := snd (choose_filename (seen_counts st) (sanitise_filename t))\<rparr>)
                \<and> seen_counts (snd (process_entry pl out (PDict kvs) st)) =
                    (seen_counts st)(sanitise_filename t \<mapsto>
                       table_count (seen_counts st) (sanitise_filename t) + 1)
            | _ \<Rightarrow> process_entry pl out (PDict kvs) st = (Some TypeError, st)))"
proof (intro conjI impI)
  show "v \<in> {PNone, PBool False, PInt 0, PFloat 0, PStr [], PList [], PDict []} \<Longrightarrow> \<not> truthy v"
    by (auto simp: float_is_zero_def)
next
  assume "map_of kvs (ascii ''title'') = Some v \<and> \<not> truthy v"
  then show "process_entry pl out (PDict kvs) st = (None, st)"
    using process_entry_falsy [of kvs pl out st] by blast
next
  assume "map_of kvs' (ascii ''title'') = None"
  then show "process_entry pl out (PDict kvs') st = (None, st)"
    using process_entry_falsy [of kvs' pl out st] by blast
next
  assume a: "map_of kvs (ascii ''title'') = Some v \<and> truthy v"
  then show "process_entry pl out (PDict kvs) st \<noteq> (None, st)"
    using process_entry_truthy_changes by blast
next
  assume a: "map_of kvs (ascii ''title'') = Some v \<and> truthy v"
  show "case v of
              PStr t \<Rightarrow>
                process_entry pl out (PDict kvs) st =
                  write_json pl
                    (os_path_join out (fst (choose_filename (seen_counts st) (sanitise_filename t))))
                    (PDict kvs)
                    (st\<lparr>seen_counts := snd (choose_filename (seen_counts st) (sanitise_filename t))\<rparr>)
                \<and> seen_counts (snd (process_entry pl out (PDict kvs) st)) =
                    (seen_counts st)(sanitise_filename t \<mapsto>
                       table_count (seen_counts st) (sanitise_filename t) + 1)
            | _ \<Rightarrow> process_entry pl out (PDict kvs) st = (Some TypeError, st)"
  proof (cases v)
    case (PStr t)
    then have ne: "t \<noteq> []" and m: "map_of kvs (ascii ''title'') = Some (PStr t)" using a by simp_all
    have eq: "process_entry pl out (PDict kvs) st =
                  write_json pl
                    (os_path_join out (fst (choose_filename (seen_counts st) (sanitise_filename t))))
                    (PDict kvs)
                    (st\<lparr>seen_counts := snd (choose_filename (seen_counts st) (sanitise_filename t))\<rparr>)"
      using process_entry_truthy_str [OF m ne] .
    have "seen_counts (snd (process_entry pl out (PDict kvs) st)) =
        snd (choose_filename (seen_counts st) (sanitise_filename t))"
      by (simp add: eq write_json_seen_counts)
    then have "seen_counts (snd (process_entry pl out (PDict kvs) st)) =
                    (seen_counts st)(sanitise_filename t \<mapsto>
                       table_count (seen_counts st) (sanitise_filename t) + 1)"
      by (simp add: choose_filename_eq)
    then show ?thesis using PStr eq by simp
  qed (use a in \<open>auto simp: process_entry_def\<close>)
qed

text \<open>
  The theorem at the titles \<open>0\<close>, \<open>5\<close> and \<open>Apple\<close>, at an entry without title, and at
  the title \<open>a\<close>, U+0000, \<open>b\<close>, for which \<^verbatim>\<open>open\<close> raises \<^verbatim>\<open>ValueError\<close> after the
  count has been incremented.
\<close>

theorem falsy_title_skipped_witness:
  "\<not> truthy (PInt 0)
   \<and> process_entry example_platform (ascii ''out'') (PDict [(ascii ''title'', PInt 0)])
       \<lparr>seen_counts = Map.empty, files = Map.empty\<rparr> =
     (None, \<lparr>seen_counts = Map.empty, files = Map.empty\<rparr>)
   \<and> process_entry example_platform (ascii ''out'') (PDict [(ascii ''pos'', PStr (ascii ''N''))])
       \<lparr>seen_counts = Map.empty, files = Map.empty\<rparr> =
     (None, \<lparr>seen_counts = Map.empty, files = Map.empty\<rparr>)
   \<and> process_entry example_platform (ascii ''out'') (PDict [(ascii ''title'', PInt 5)])
       \<lparr>seen_counts = Map.empty, files = Map.empty\<rparr> =
     (Some TypeError, \<lparr>seen_counts = Map.empty, files = Map.empty\<rparr>)
   \<and> process_entry example_platform (ascii ''out'') (PDict [(ascii ''title'', PStr (ascii ''Apple''))])
       \<lparr>seen_counts = Map.empty, files = Map.empty\<rparr> \<noteq>
     (None, \<lparr>seen_counts = Map.empty, files = Map.empty\<rparr>)
   \<and> process_entry example_platform (ascii ''out'') (PDict [(ascii ''title'', PStr [0x61, 0, 0x62])])
       \<lparr>seen_counts = Map.empty, files = Map.empty\<rparr> =
     (Some ValueError, \<lparr>seen_counts = [[0x61, 0, 0x62] \<mapsto> 1], files = Map.empty\<rparr>)"
proof -
  let ?pl = example_platform
  let ?st = "\<lparr>seen_counts = Map.empty, files = Map.empty :: bytes \<rightharpoonup> bytes\<rparr>"
  note i0 = falsy_title_skipped [of "PInt 0" "[(ascii ''title'', PInt 0)]" ?pl "ascii ''out''" ?st
      "[(ascii ''pos'', PStr (ascii ''N''))]"]
  note i5 = falsy_title_skipped [of "PInt 5" "[(ascii ''title'', PInt 5)]" ?pl "ascii ''out''" ?st
      "[]"]
  note ia = falsy_title_skipped [of "PStr (ascii ''Apple'')"
      "[(ascii ''title'', PStr (ascii ''Apple''))]" ?pl "ascii ''out''" ?st "[]"]
  note iz = falsy_title_skipped [of "PStr [0x61, 0, 0x62]"
      "[(ascii ''title'', PStr [0x61, 0, 0x62])]" ?pl "ascii ''out''" ?st "[]"]
  have m: "PInt 0 \<in> {PNone, PBool False, PInt 0, PFloat 0, PStr [], PList [], PDict []}" by simp
  have f: "\<not> truthy (PInt 0)" using i0 [THEN conjunct1] m by (rule mp)
  have h0: "map_of [(ascii ''title'', PInt 0)] (ascii ''title'') = Some (PInt 0) \<and> \<not> truthy (PInt 0)"
    by simp
  have c0: "process_entry ?pl (ascii ''out'') (PDict [(ascii ''title'', PInt 0)]) ?st = (None, ?st)"
    using i0 [THEN conjunct2, THEN conjunct1] h0 by (rule mp)
  have hp: "map_of [(ascii ''pos'', PStr (ascii ''N''))] (ascii ''title'') = None"
    by (simp add: ascii_def)
  have cp: "process_entry ?pl (ascii ''out'') (PDict [(ascii ''pos'', PStr (ascii ''N''))]) ?st = (None, ?st)"
    using i0 [THEN conjunct2, THEN conjunct2, THEN conjunct1] hp by (rule mp)
  have h5: "map_of [(ascii ''title'', PInt 5)] (ascii ''title'') = Some (PInt 5) \<and> truthy (PInt 5)"
    by simp
  have c5: "process_entry ?pl (ascii ''out'') (PDict [(ascii ''title'', PInt 5)]) ?st = (Some TypeError, ?st)"
    using i5 [THEN conjunct2, THEN conjunct2, THEN conjunct2, rule_format, OF h5, THEN conjunct2]
    by simp
  have ha: "map_of [(ascii ''title'', PStr (ascii ''Apple''))] (ascii ''title'') = Some (PStr (ascii ''Apple''))
      \<and> truthy (PStr (ascii ''Apple''))"
    by (simp add: ascii_def)
  have ca: "process_entry ?pl (ascii ''out'') (PDict [(ascii ''title'', PStr (ascii ''Apple''))]) ?st
      \<noteq> (None, ?st)"
    using ia [THEN conjunct2, THEN conjunct2, THEN conjunct2, rule_format, OF ha, THEN conjunct1] .
  have hz: "map_of [(ascii ''title'', PStr [0x61, 0, 0x62])] (ascii ''title'') = Some (PStr [0x61, 0, 0x62])
      \<and> truthy (PStr [0x61, 0, 0x62])"
    by simp
  have "process_entry ?pl (ascii ''out'') (PDict [(ascii ''title'', PStr [0x61, 0, 0x62])]) ?st =
      write_json ?pl
        (os_path_join (ascii ''out'')
           (fst (choose_filename (seen_counts ?st) (sanitise_filename [0x61, 0, 0x62]))))
        (PDict [(ascii ''title'', PStr [0x61, 0, 0x62])])
        (?st\<lparr>seen_counts := snd (choose_filename (seen_counts ?st) (sanitise_filename [0x61, 0, 0x62]))\<rparr>)"
    using iz [THEN conjunct2, THEN conjunct2, THEN conjunct2, rule_format, OF hz, THEN conjunct2]
    by simp
  also have "\<dots> = (Some ValueError, \<lparr>seen_counts = [[0x61, 0, 0x62] \<mapsto> 1], files = Map.empty\<rparr>)"
    by (simp add: run_defs)
  finally have cz: "process_entry ?pl (ascii ''out'') (PDict [(ascii ''title'', PStr [0x61, 0, 0x62])]) ?st =
      (Some ValueError, \<lparr>seen_counts = [[0x61, 0, 0x62] \<mapsto> 1], files = Map.empty\<rparr>)" .
  show ?thesis using f c0 cp c5 ca cz by (intro conjI)
qed

section \<open>Loading the input\<close>

lemmas decode_defs = json_loads_def skip_ws_def is_json_ws_def ascii_def match_number_def
  number_span_def scan_int_def scan_frac_def scan_exp_def is_digit_def py_int_def over_int_limit_def
  digits_value_def backslash_def decode_hex4_def hex_value_def NaN_def PosInf_def NegInf_def Let_def
  example_platform_def

lemmas load_defs = py_load_def py_read_def py_makedirs_def fsencode_def fsencode_char_def
  utf8_encode_char_def is_cont_def

lemma match_number_error:
  "match_number pl s = Inl e \<Longrightarrow> e \<in> {JSONDecodeError, ValueError, RecursionError}"
  by (auto simp: match_number_def py_int_def Let_def split: option.splits if_splits sum.splits prod.splits)

lemma scan_errors:
  "scan_once pl d n s = Inl e \<Longrightarrow> e \<in> {JSONDecodeError, ValueError, RecursionError}"
  "parse_object pl d n s = Inl e \<Longrightarrow> e \<in> {JSONDecodeError, ValueError, RecursionError}"
  "parse_object_loop pl d n kvs s = Inl e \<Longrightarrow> e \<in> {JSONDecodeError, ValueError, RecursionError}"
  "parse_array pl d n s = Inl e \<Longrightarrow> e \<in> {JSONDecodeError, ValueError, RecursionError}"
  "parse_array_loop pl d n xs s = Inl e \<Longrightarrow> e \<in> {JSONDecodeError, ValueError, RecursionError}"
proof (induction pl d n s and pl d n s and pl d n kvs s and pl d n s and pl d n xs s
    rule: scan_once_parse_object_parse_object_loop_parse_array_parse_array_loop.induct)
  case (1 pl d s)
  then show ?case by simp
next
  case (2 pl d n s)
  show ?case
  proof (cases s)
    case Nil
    then show ?thesis using 2(3) by simp
  next
    case (Cons c cs)
    show ?thesis
    proof (cases "c = of_char CHR ''{'' \<and> d \<noteq> 0")
      case True
      then have "parse_object pl (d - 1) n cs = Inl e" using 2(3) Cons by simp
      then show ?thesis using 2(1) Cons True by simp
    next
      case nobj: False
      show ?thesis
      proof (cases "c = of_char CHR ''['' \<and> d \<noteq> 0")
        case True
        then have "parse_array pl (d - 1) n cs = Inl e" using 2(3) Cons by simp
        then show ?thesis using 2(2) Cons True by simp
      next
        case False
        then show ?thesis using 2(3) Cons nobj match_number_error [of pl s e]
          by (auto split: if_splits option.splits prod.splits)
      qed
    qed
  qed
next
  case (3 pl d n s)
  then show ?case by (auto simp: Let_def split: if_splits)
next
  case (4 pl d rval s)
  then show ?case by simp
next
  case (5 pl d n rval s)
  show ?case
  proof (cases "take 1 s \<noteq> [0x22]")
    case True
    then show ?thesis using 5(3) by simp
  next
    case q: False
    show ?thesis
    proof (cases "scanstring (drop 1 s) []")
      case None
      then show ?thesis using 5(3) q by simp
    next
      case (Some ks)
      obtain key s1 where ks: "ks = (key, s1)" by (cases ks)
      show ?thesis
      proof (cases "take 1 (skip_ws s1) \<noteq> ascii '':''")
        case True
        then show ?thesis using 5(3) q Some ks by (simp add: Let_def)
      next
        case col: False
        show ?thesis
        proof (cases "scan_once pl d n (skip_ws (drop 1 (skip_ws s1)))")
          case (Inl e')
          then have "e' = e" using 5(3) q Some ks col by (simp add: Let_def)
          then show ?thesis using 5(1) [OF _ Some ks [symmetric] refl] q col Inl
            by (simp add: Let_def)
        next
          case (Inr vs)
          obtain val s2 where vs: "vs = (val, s2)" by (cases vs)
          show ?thesis
            using 5(3) q Some ks col Inr vs
              5(2) [OF _ Some ks [symmetric] refl _ Inr vs [symmetric] refl refl]
            by (auto simp: Let_def split: if_splits)
        qed
      qed
    qed
  qed
next
  case (6 pl d n s)
  then show ?case by (auto simp: Let_def split: if_splits)
next
  case (7 pl d rval s)
  then show ?case by simp
next
  case (8 pl d n rval s)
  show ?case
  proof (cases "scan_once pl d n s")
    case (Inl e')
    then have "e' = e" using 8(3) by simp
    then show ?thesis using 8(1) Inl by simp
  next
    case (Inr vs)
    obtain val s2 where vs: "vs = (val, s2)" by (cases vs)
    show ?thesis
      using 8(3) Inr vs 8(2) [OF Inr vs [symmetric] refl refl]
      by (auto simp: Let_def split: if_splits)
  qed
qed

lemma json_loads_error:
  "json_loads pl text = Inl e \<Longrightarrow> e \<in> {JSONDecodeError, ValueError, RecursionError}"
  using scan_errors(1) [of pl "decode_depth pl" "Suc (length text)" "skip_ws text" e]
  by (auto simp: json_loads_def split: if_splits sum.splits prod.splits)

lemma split_entries_non_dict:
  "\<forall>e\<in>set es. \<forall>kvs. e \<noteq> PDict kvs \<Longrightarrow>
   split_entries pl out es st = (if es = [] then None else Some AttributeError, st)"
proof (cases es)
  case Nil
  then show ?thesis by simp
next
  case (Cons e es')
  assume "\<forall>e\<in>set es. \<forall>kvs. e \<noteq> PDict kvs"
  then have "\<forall>kvs. e \<noteq> PDict kvs" using Cons by simp
  then have "process_entry pl out e st = (Some AttributeError, st)"
    by (cases e) (simp_all add: process_entry_def)
  then show ?thesis using Cons by simp
qed

lemma split_dictionary_loaded:
  assumes "py_makedirs pl output_dir = None" "py_load pl fs input_file = Inr v"
  shows "split_dictionary pl input_file output_dir fs =
     (case py_iter v of
        Inl e \<Rightarrow> (Some e, fs)
      | Inr es \<Rightarrow> (fst (split_entries pl output_dir es \<lparr>seen_counts = Map.empty, files = fs\<rparr>),
                   files (snd (split_entries pl output_dir es \<lparr>seen_counts = Map.empty, files = fs\<rparr>))))"
  using assms by (simp add: split_dictionary_def split_beta split: sum.splits)

lemma split_dictionary_not_list:
  assumes "py_makedirs pl output_dir = None" "py_load pl fs input_file = Inr v" "\<forall>xs. v \<noteq> PList xs"
  shows "split_dictionary pl input_file output_dir fs =
     (case v of
        PDict kvs \<Rightarrow> if kvs = [] then None else Some AttributeError
      | PStr s \<Rightarrow> if s = [] then None else Some AttributeError
      | _ \<Rightarrow> Some TypeError, fs)"
proof (cases v)
  case (PDict kvs)
  have "\<forall>e\<in>set (map (\<lambda>(k, v). PStr k) kvs). \<forall>kvs. e \<noteq> PDict kvs" by auto
  from split_entries_non_dict [OF this]
  show ?thesis using PDict by (simp add: split_dictionary_loaded [OF assms(1,2)])
next
  case (PStr s)
  have "\<forall>e\<in>set (map (\<lambda>c. PStr [c]) s). \<forall>kvs. e \<noteq> PDict kvs" by auto
  from split_entries_non_dict [OF this]
  show ?thesis using PStr by (simp add: split_dictionary_loaded [OF assms(1,2)])
qed (use assms(3) in \<open>simp_all add: split_dictionary_loaded [OF assms(1,2)]\<close>)

text \<open>
  C6, as the code has it. Nothing checks that the value loaded is an array, and no
  exception of the program is called \<^verbatim>\<open>DataFormatError\<close>. An exception of
  \<^verbatim>\<open>os.makedirs\<close> ends the run before the input is read. Otherwise an exception of
  \<^verbatim>\<open>open\<close> or \<^verbatim>\<open>json.load\<close> ends the run, and in both cases the files are as
  before. For a file that can be opened, \<^verbatim>\<open>json.load\<close> raises
  \<^verbatim>\<open>UnicodeDecodeError\<close> when the bytes are not UTF-8, and otherwise what the decoder
  raises for the text: \<^verbatim>\<open>JSONDecodeError\<close>, \<^verbatim>\<open>ValueError\<close> (an integer with more
  digits than the limit) or \<^verbatim>\<open>RecursionError\<close> (nesting beyond the recursion limit),
  and nothing else. When \<^verbatim>\<open>json.load\<close> returns a value that is not a list, the files
  are as before as well; the run ends with \<^verbatim>\<open>AttributeError\<close> at the first key of a
  non-empty dictionary or the first character of a non-empty string, with
  \<^verbatim>\<open>TypeError\<close> for \<^verbatim>\<open>None\<close>, a boolean or a number, and with no exception at all
  for the empty dictionary and the empty string.
\<close>

theorem load_failure_writes_nothing:
  "(\<forall>e. py_makedirs pl output_dir = Some e \<longrightarrow>
        split_dictionary pl input_file output_dir fs = (Some e, fs))
   \<and> (\<forall>e. py_makedirs pl output_dir = None \<and> py_load pl fs input_file = Inl e \<longrightarrow>
        split_dictionary pl input_file output_dir fs = (Some e, fs))
   \<and> (\<forall>p data. fsencode input_file = Inr p \<and> os_open_r pl p = None \<and> fs p = Some data \<longrightarrow>
        py_load pl fs input_file =
          (case utf8_decode data of
             None \<Rightarrow> Inl UnicodeDecodeError
           | Some text \<Rightarrow> json_loads pl (universal_newlines text)))
   \<and> (\<forall>text e. json_loads pl text = Inl e \<longrightarrow> e \<in> {JSONDecodeError, ValueError, RecursionError})
   \<and> (\<forall>v. py_makedirs pl output_dir = None \<and> py_load pl fs input_file = Inr v
          \<and> (\<forall>xs. v \<noteq> PList xs) \<longrightarrow>
        split_dictionary pl input_file output_dir fs =
          (case v of
             PDict kvs \<Rightarrow> if kvs = [] then None else Some AttributeError
           | PStr s \<Rightarrow> if s = [] then None else Some AttributeError
           | _ \<Rightarrow> Some TypeError, fs))"
proof (intro conjI allI impI)
  fix e
  assume "py_makedirs pl output_dir = Some e"
  then show "split_dictionary pl input_file output_dir fs = (Some e, fs)"
    by (simp add: split_dictionary_def)
next
  fix e
  assume "py_makedirs pl output_dir = None \<and> py_load pl fs input_file = Inl e"
  then show "split_dictionary pl input_file output_dir fs = (Some e, fs)"
    by (simp add: split_dictionary_def)
next
  fix p data
  assume "fsencode input_file = Inr p \<and> os_open_r pl p = None \<and> fs p = Some data"
  then show "py_load pl fs input_file =
          (case utf8_decode data of
             None \<Rightarrow> Inl UnicodeDecodeError
           | Some text \<Rightarrow> json_loads pl (universal_newlines text))"
    by (simp add: py_load_def py_read_def split: option.splits)
next
  fix s e
  assume "json_loads pl s = Inl e"
  then show "e \<in> {JSONDecodeError, ValueError, RecursionError}"
    by (rule json_loads_error)
next
  fix v
  assume "py_makedirs pl output_dir = None \<and> py_load pl fs input_file = Inr v
          \<and> (\<forall>xs. v \<noteq> PList xs)"
  then show "split_dictionary pl input_file output_dir fs =
          (case v of
             PDict kvs \<Rightarrow> if kvs = [] then None else Some AttributeError
           | PStr s \<Rightarrow> if s = [] then None else Some AttributeError
           | _ \<Rightarrow> Some TypeError, fs)"
    using split_dictionary_not_list [of pl output_dir fs input_file v] by blast
qed

lemma makedirs_out: "py_makedirs example_platform (ascii ''out'') = None"
  by (simp add: load_defs ascii_def example_platform_def)

lemma fsencode_dict_json: "fsencode (ascii ''dict.json'') = Inr (ascii ''dict.json'')"
  by (simp add: load_defs ascii_def)

lemma open_r_example: "os_open_r example_platform p = None"
  by (simp add: example_platform_def)

lemma utf8_decode_ascii: "\<forall>c\<in>set s. c < 0x80 \<Longrightarrow> utf8_decode s = Some s"
  by (induction s) simp_all

lemma universal_newlines_id: "0x0D \<notin> set s \<Longrightarrow> universal_newlines s = s"
  by (induction s rule: universal_newlines.induct) auto

lemma py_load_ascii:
  assumes "\<forall>c\<in>set text. c < 0x80" "0x0D \<notin> set text"
  shows "py_load example_platform [ascii ''dict.json'' \<mapsto> text] (ascii ''dict.json'') =
         json_loads example_platform text"
  by (simp add: py_load_def py_read_def fsencode_dict_json open_r_example
      utf8_decode_ascii [OF assms(1)] universal_newlines_id [OF assms(2)])

text \<open>
  The theorem at the empty output path, at a truncated text, at bytes that are not
  UTF-8, and at the text \<^verbatim>\<open>{"not": "an array"}\<close> of the specification.
\<close>

theorem load_failure_writes_nothing_witness:
  "split_dictionary example_platform (ascii ''dict.json'') []
       [ascii ''dict.json'' \<mapsto> text_two_entries] =
     (Some FileNotFoundError, [ascii ''dict.json'' \<mapsto> text_two_entries])
   \<and> split_dictionary example_platform (ascii ''dict.json'') (ascii ''out'')
       [ascii ''dict.json'' \<mapsto> text_truncated] =
     (Some JSONDecodeError, [ascii ''dict.json'' \<mapsto> text_truncated])
   \<and> py_load example_platform [ascii ''dict.json'' \<mapsto> [0x5B, 0xFF, 0x5D]] (ascii ''dict.json'') =
       Inl UnicodeDecodeError
   \<and> split_dictionary example_platform (ascii ''dict.json'') (ascii ''out'')
       [ascii ''dict.json'' \<mapsto> text_not_an_array] =
     (Some AttributeError, [ascii ''dict.json'' \<mapsto> text_not_an_array])"
proof -
  let ?pl = example_platform
  have m0: "py_makedirs ?pl [] = Some FileNotFoundError"
    by (simp add: load_defs)
  have a: "split_dictionary ?pl (ascii ''dict.json'') []
       [ascii ''dict.json'' \<mapsto> text_two_entries] =
     (Some FileNotFoundError, [ascii ''dict.json'' \<mapsto> text_two_entries])"
    using load_failure_writes_nothing [where pl="?pl" and output_dir="[]"
        and input_file="ascii ''dict.json''"
        and fs="[ascii ''dict.json'' \<mapsto> text_two_entries]", THEN conjunct1, rule_format, OF m0] .
  have t: "json_loads ?pl text_truncated = Inl JSONDecodeError"
    by (simp add: text_truncated_def decode_defs)
  have lt: "py_load ?pl [ascii ''dict.json'' \<mapsto> text_truncated] (ascii ''dict.json'') =
      json_loads ?pl text_truncated"
    by (rule py_load_ascii) (simp_all add: text_truncated_def ascii_def)
  have h1: "py_makedirs ?pl (ascii ''out'') = None
      \<and> py_load ?pl [ascii ''dict.json'' \<mapsto> text_truncated] (ascii ''dict.json'') = Inl JSONDecodeError"
    using makedirs_out lt t by simp
  have b: "split_dictionary ?pl (ascii ''dict.json'') (ascii ''out'')
       [ascii ''dict.json'' \<mapsto> text_truncated] =
     (Some JSONDecodeError, [ascii ''dict.json'' \<mapsto> text_truncated])"
    using load_failure_writes_nothing [where pl="?pl" and output_dir="ascii ''out''"
        and fs="[ascii ''dict.json'' \<mapsto> text_truncated]"
        and input_file="ascii ''dict.json''", THEN conjunct2, THEN conjunct1, rule_format, OF h1] .
  have h2: "fsencode (ascii ''dict.json'') = Inr (ascii ''dict.json'')
      \<and> os_open_r ?pl (ascii ''dict.json'') = None
      \<and> [ascii ''dict.json'' \<mapsto> [0x5B, 0xFF, 0x5D]] (ascii ''dict.json'') = Some [0x5B, 0xFF, 0x5D]"
    by (simp add: fsencode_dict_json open_r_example)
  have "py_load ?pl [ascii ''dict.json'' \<mapsto> [0x5B, 0xFF, 0x5D]] (ascii ''dict.json'') =
          (case utf8_decode [0x5B, 0xFF, 0x5D] of
             None \<Rightarrow> Inl UnicodeDecodeError
           | Some text \<Rightarrow> json_loads ?pl (universal_newlines text))"
    using load_failure_writes_nothing [where pl="?pl" and output_dir="ascii ''out''"
        and input_file="ascii ''dict.json''"
        and fs="[ascii ''dict.json'' \<mapsto> [0x5B, 0xFF, 0x5D]]",
        THEN conjunct2, THEN conjunct2, THEN conjunct1, rule_format, OF h2] .
  then have c: "py_load ?pl [ascii ''dict.json'' \<mapsto> [0x5B, 0xFF, 0x5D]] (ascii ''dict.json'') =
       Inl UnicodeDecodeError"
    by simp
  have n: "json_loads ?pl text_not_an_array = Inr (PDict [(ascii ''not'', PStr (ascii ''an array''))])"
    by (simp add: text_not_an_array_def decode_defs)
  have ln: "py_load ?pl [ascii ''dict.json'' \<mapsto> text_not_an_array] (ascii ''dict.json'') =
      json_loads ?pl text_not_an_array"
    by (rule py_load_ascii) (simp_all add: text_not_an_array_def ascii_def)
  have h3: "py_makedirs ?pl (ascii ''out'') = None
      \<and> py_load ?pl [ascii ''dict.json'' \<mapsto> text_not_an_array] (ascii ''dict.json'') =
          Inr (PDict [(ascii ''not'', PStr (ascii ''an array''))])
      \<and> (\<forall>xs. PDict [(ascii ''not'', PStr (ascii ''an array''))] \<noteq> PList xs)"
    using makedirs_out ln n by simp
  have d: "split_dictionary ?pl (ascii ''dict.json'') (ascii ''out'')
       [ascii ''dict.json'' \<mapsto> text_not_an_array] =
     (Some AttributeError, [ascii ''dict.json'' \<mapsto> text_not_an_array])"
    using load_failure_writes_nothing [where pl="?pl" and output_dir="ascii ''out''"
        and fs="[ascii ''dict.json'' \<mapsto> text_not_an_array]"
        and input_file="ascii ''dict.json''", THEN conjunct2, THEN conjunct2, THEN conjunct2, THEN conjunct2,
        rule_format, OF h3]
    by simp
  show ?thesis using a b c d by (intro conjI)
qed

text \<open>
  The claim C6 as stated fails at the input text \<^verbatim>\<open>{}\<close>: its value is an object, not
  an array, and the run ends normally.
\<close>

theorem empty_object_input_raises_nothing:
  "py_load example_platform [ascii ''dict.json'' \<mapsto> text_empty_object] (ascii ''dict.json'') =
     Inr (PDict [])
   \<and> split_dictionary example_platform (ascii ''dict.json'') (ascii ''out'')
       [ascii ''dict.json'' \<mapsto> text_empty_object] =
     (None, [ascii ''dict.json'' \<mapsto> text_empty_object])"
proof -
  have "json_loads example_platform text_empty_object = Inr (PDict [])"
    by (simp add: text_empty_object_def decode_defs)
  moreover have "py_load example_platform [ascii ''dict.json'' \<mapsto> text_empty_object] (ascii ''dict.json'') =
      json_loads example_platform text_empty_object"
    by (rule py_load_ascii) (simp_all add: text_empty_object_def ascii_def)
  ultimately have l: "py_load example_platform [ascii ''dict.json'' \<mapsto> text_empty_object]
      (ascii ''dict.json'') = Inr (PDict [])" by simp
  then show ?thesis by (simp add: split_dictionary_def makedirs_out)
qed

end
